theory Spec2Isabelle
  imports Complex_Main
begin

section \<open>Inline line building (WebCore layout, InlineLine.cpp)\<close>

text \<open>
  A shallow embedding of \<^verbatim>\<open>Line\<close>, \<^verbatim>\<open>Line::Run\<close> and
  \<^verbatim>\<open>Line::TrimmableTrailingContent\<close>. Each member function becomes a function that
  takes the object and returns the updated one. \<^verbatim>\<open>size_t\<close> counters are \<open>nat\<close>; the one
  decrement that can wrap (the text length in \<^verbatim>\<open>removeTrailingWhitespace\<close>) has its
  wrap-around written out. \<^verbatim>\<open>ASSERT\<close> is compiled out of release builds and is not
  modelled; \<^verbatim>\<open>ASSERT_NOT_REACHED\<close>, an out-of-range \<^verbatim>\<open>Vector\<close> index and the
  dereference of an empty \<^verbatim>\<open>std::optional\<close> are error results.
\<close>

subsection \<open>Layout units and rounding\<close>

text \<open>
  \<^verbatim>\<open>InlineLayoutUnit\<close> is declared in a header that is not under src/; the literals
  of the source (\<^verbatim>\<open>0.0f\<close>, lines 300 and 306) show a C++ \<^verbatim>\<open>float\<close>. The model keeps
  widths and positions in \<open>real\<close>. Where a property relates the results of several
  operations to each other, each result goes through the rounding of the unit, which
  the model takes from its context (\<open>roundUnit\<close> below): the left edge and the width
  of an atomic box with a negative margin (line 335), and the quotient, the products,
  the running sum and the final sum of the justification (lines 128 to 140). The
  identity as rounding is exact arithmetic; \<open>float32\<close> is the C++ \<^verbatim>\<open>float\<close>. The
  single updates of a field elsewhere (\<^verbatim>\<open>+=\<close>, \<^verbatim>\<open>-=\<close>, \<^verbatim>\<open>std::max\<close>) are
  written with the exact operation.
\<close>

text \<open>The nearest integer, a tie going to the even one.\<close>

definition roundHalfEven :: "real \<Rightarrow> int" where
  "roundHalfEven x =
     (let f = \<lfloor>x\<rfloor> in
      if x - of_int f < 1 / 2 then f
      else if 1 / 2 < x - of_int f then f + 1
      else if even f then f else f + 1)"

text \<open>
  The exponent of a magnitude in single precision: the largest \<open>e\<close> from 127 down with
  \<open>2 ^ e \<le> x\<close>, and -126 (the exponent of the subnormal numbers) below that.
\<close>

fun binaryExponent :: "nat \<Rightarrow> int \<Rightarrow> real \<Rightarrow> int" where
  "binaryExponent 0 e x = e"
| "binaryExponent (Suc fuel) e x =
     (if 2 powi e \<le> x then e else binaryExponent fuel (e - 1) x)"

text \<open>
  Rounding to IEEE 754 single precision, to nearest and ties to even: 24 significant
  bits, so the unit in the last place of a number with exponent \<open>e\<close> is
  \<open>2 ^ (e - 23)\<close>. Overflow to infinity (a magnitude of \<open>2 ^ 128\<close> or more) and NaN
  are not modelled.
\<close>

definition float32 :: "real \<Rightarrow> real" where
  "float32 x =
     (let e = binaryExponent 253 127 \<bar>x\<bar>; ulp = 2 powi (e - 23)
      in of_int (roundHalfEven (x / ulp)) * ulp)"

subsection \<open>Collaborators: style, layout boxes, inline items\<close>

datatype WhiteSpace = Normal | Pre | PreWrap | PreLine | NoWrap | KHTMLNoWrap | BreakSpaces

datatype TextCombine = TextCombineNone | Horizontal

datatype TextAlignMode =
  AlignLeft | AlignRight | AlignCenter | Justify
  | WebKitLeft | WebKitRight | WebKitCenter | AlignStart | AlignEnd

text \<open>
  What the line reads from \<^verbatim>\<open>RenderStyle\<close>: \<^verbatim>\<open>whiteSpace()\<close>,
  \<^verbatim>\<open>textCombine()\<close>, \<^verbatim>\<open>letterSpacing()\<close>,
  \<^verbatim>\<open>fontCascade().wordSpacing()\<close> and the measured width of the hyphen string.
\<close>

record RenderStyle =
  whiteSpace :: WhiteSpace
  textCombine :: TextCombine
  letterSpacing :: real
  wordSpacing :: real
  hyphenStringWidth :: real

text \<open>
  A layout box is referred to by pointer; \<open>boxAddress\<close> is that pointer, and
  \<^verbatim>\<open>&a != &b\<close> compares addresses. \<open>boxPreservesSpacesAndTabs\<close> is the result of
  \<^verbatim>\<open>TextUtil::shouldPreserveSpacesAndTabs(box)\<close>.
\<close>

record LayoutBox =
  boxAddress :: nat
  isReplacedBox :: bool
  style :: RenderStyle
  boxPreservesSpacesAndTabs :: bool

datatype ItemType =
  Text | HardLineBreak | SoftLineBreak | WordBreakOpportunity | Box
  | InlineBoxStart | InlineBoxEnd

text \<open>
  \<^verbatim>\<open>InlineItem\<close> with the members of its subclasses \<^verbatim>\<open>InlineTextItem\<close> and
  \<^verbatim>\<open>InlineSoftLineBreakItem\<close> that the line reads. \<open>itemStart\<close> is
  \<^verbatim>\<open>start()\<close> of a text item and \<^verbatim>\<open>position()\<close> of a soft line break;
  \<open>itemPreservesSpacesAndTabs\<close> is the result of
  \<^verbatim>\<open>InlineTextItem::shouldPreserveSpacesAndTabs(item)\<close>.
\<close>

record InlineItem =
  itemType :: ItemType
  itemLayoutBox :: LayoutBox
  itemStart :: nat
  itemLength :: nat
  isWhitespace :: bool
  isWordSeparator :: bool
  hasTrailingSoftHyphen :: bool
  isEmptyContent :: bool
  itemPreservesSpacesAndTabs :: bool

subsection \<open>Expansion behaviour\<close>

text \<open>
  Modelled from the spec: \<^verbatim>\<open>TextFlags.h\<close>, which declares the
  \<^verbatim>\<open>ExpansionBehavior\<close> bit flags, is not under src/. The spec (section 4.4) speaks
  of per-run legality flags for left and right expansion; the model keeps the two bit
  groups as a pair, so that \<^verbatim>\<open>a | b\<close> of a left and a right flag is the pair and
  \<^verbatim>\<open>x & LeftExpansionMask\<close> keeps the left component. Neither the spec nor the source
  fixes the value of \<^verbatim>\<open>DefaultExpansion\<close>; it is taken as forbid-left, allow-right,
  and no theorem below depends on that choice.
\<close>

datatype LeftExpansion = ForbidLeftExpansion | AllowLeftExpansion

datatype RightExpansion = ForbidRightExpansion | AllowRightExpansion

type_synonym ExpansionBehavior = "LeftExpansion \<times> RightExpansion"

definition DefaultExpansion :: ExpansionBehavior where
  "DefaultExpansion = (ForbidLeftExpansion, AllowRightExpansion)"

record Expansion =
  behavior :: ExpansionBehavior
  horizontalExpansion :: real

subsection \<open>Runs\<close>

datatype TrailingWhitespace = NoTrailingWhitespace | NotCollapsible | Collapsible | Collapsed

record TextContent =
  textStart :: nat
  textLength :: nat

record Run =
  m_type :: ItemType
  m_layoutBox :: LayoutBox
  m_logicalLeft :: real
  m_logicalWidth :: real
  m_trailingWhitespaceType :: TrailingWhitespace
  m_trailingWhitespaceWidth :: real
  m_textContent :: "TextContent option"
  m_expansion :: Expansion
  m_hyphenWidth :: "real option"

text \<open>
  Modelled from the spec: \<^verbatim>\<open>InlineLine.h\<close>, which declares \<^verbatim>\<open>Line::Run\<close> and
  defines its inline members, is not under src/. The kind tests compare \<open>m_type\<close>; a line
  break is a hard or a soft one; \<^verbatim>\<open>logicalRight\<close> is left plus width;
  \<^verbatim>\<open>moveHorizontally\<close> adds to the left edge and \<^verbatim>\<open>shrinkHorizontally\<close>
  subtracts from the width (spec, sections 3 and 4.4). \<^verbatim>\<open>TrailingWhitespace::None\<close> is
  written \<open>NoTrailingWhitespace\<close>. The kind \<open>NotCollapsible\<close> is the trailing whitespace
  that \<^verbatim>\<open>visuallyCollapsePreWrapOverflowContent\<close> asserts to be there: whitespace that
  is present and not collapsible.
\<close>

definition isText :: "Run \<Rightarrow> bool" where
  "isText r = (m_type r = Text)"

definition isBox :: "Run \<Rightarrow> bool" where
  "isBox r = (m_type r = Box)"

definition isLineBreak :: "Run \<Rightarrow> bool" where
  "isLineBreak r = (m_type r = HardLineBreak \<or> m_type r = SoftLineBreak)"

definition isInlineBoxStart :: "Run \<Rightarrow> bool" where
  "isInlineBoxStart r = (m_type r = InlineBoxStart)"

definition isInlineBoxEnd :: "Run \<Rightarrow> bool" where
  "isInlineBoxEnd r = (m_type r = InlineBoxEnd)"

definition logicalRight :: "Run \<Rightarrow> real" where
  "logicalRight r = m_logicalLeft r + m_logicalWidth r"

definition hasTrailingWhitespace :: "Run \<Rightarrow> bool" where
  "hasTrailingWhitespace r = (m_trailingWhitespaceType r \<noteq> NoTrailingWhitespace)"

definition hasCollapsedTrailingWhitespace :: "Run \<Rightarrow> bool" where
  "hasCollapsedTrailingWhitespace r = (m_trailingWhitespaceType r = Collapsed)"

definition hasCollapsibleTrailingWhitespace :: "Run \<Rightarrow> bool" where
  "hasCollapsibleTrailingWhitespace r =
     (m_trailingWhitespaceType r = Collapsible \<or> hasCollapsedTrailingWhitespace r)"

definition moveHorizontally :: "real \<Rightarrow> Run \<Rightarrow> Run" where
  "moveHorizontally offset r = r\<lparr>m_logicalLeft := m_logicalLeft r + offset\<rparr>"

definition shrinkHorizontally :: "real \<Rightarrow> Run \<Rightarrow> Run" where
  "shrinkHorizontally width r = r\<lparr>m_logicalWidth := m_logicalWidth r - width\<rparr>"

definition setExpansion :: "Expansion \<Rightarrow> Run \<Rightarrow> Run" where
  "setExpansion e r = r\<lparr>m_expansion := e\<rparr>"

text \<open>
  Modelled from the spec: \<^verbatim>\<open>Run::setNeedsHyphen\<close> is defined in
  \<^verbatim>\<open>InlineLine.h\<close>, not under src/. The spec (sections 3 and 4.5) says the hyphen
  width is attached to the run, an optional field set once.
\<close>

definition setNeedsHyphen :: "real \<Rightarrow> Run \<Rightarrow> Run" where
  "setNeedsHyphen hyphenLogicalWidth r = r\<lparr>m_hyphenWidth := Some hyphenLogicalWidth\<rparr>"

text \<open>
  Modelled from the spec: \<^verbatim>\<open>Run::trailingWhitespaceType\<close> is defined in
  \<^verbatim>\<open>InlineLine.h\<close>, not under src/. An item that is not whitespace leaves no
  trailing whitespace; preserved whitespace is present and not collapsible; collapsible
  whitespace of one character is \<open>Collapsible\<close> (the spec's trailing collapsible space
  of "Hello "), longer collapsible whitespace is \<open>Collapsed\<close> to one unit (the spec's
  two-space item).
\<close>

definition trailingWhitespaceType :: "InlineItem \<Rightarrow> TrailingWhitespace" where
  "trailingWhitespaceType inlineTextItem =
     (if \<not> isWhitespace inlineTextItem then NoTrailingWhitespace
      else if itemPreservesSpacesAndTabs inlineTextItem then NotCollapsible
      else if itemLength inlineTextItem = 1 then Collapsible
      else Collapsed)"

text \<open>The three constructors of \<^verbatim>\<open>Line::Run\<close> (lines 448 to 473).\<close>

definition Run_item :: "InlineItem \<Rightarrow> real \<Rightarrow> real \<Rightarrow> Run" where
  "Run_item inlineItem logicalLeft logicalWidth =
     \<lparr>m_type = itemType inlineItem,
      m_layoutBox = itemLayoutBox inlineItem,
      m_logicalLeft = logicalLeft,
      m_logicalWidth = logicalWidth,
      m_trailingWhitespaceType = NoTrailingWhitespace,
      m_trailingWhitespaceWidth = 0,
      m_textContent = None,
      m_expansion = \<lparr>behavior = DefaultExpansion, horizontalExpansion = 0\<rparr>,
      m_hyphenWidth = None\<rparr>"

definition Run_softLineBreak :: "InlineItem \<Rightarrow> real \<Rightarrow> Run" where
  "Run_softLineBreak softLineBreakItem logicalLeft =
     \<lparr>m_type = itemType softLineBreakItem,
      m_layoutBox = itemLayoutBox softLineBreakItem,
      m_logicalLeft = logicalLeft,
      m_logicalWidth = 0,
      m_trailingWhitespaceType = NoTrailingWhitespace,
      m_trailingWhitespaceWidth = 0,
      m_textContent = Some \<lparr>textStart = itemStart softLineBreakItem, textLength = 1\<rparr>,
      m_expansion = \<lparr>behavior = DefaultExpansion, horizontalExpansion = 0\<rparr>,
      m_hyphenWidth = None\<rparr>"

definition Run_text :: "InlineItem \<Rightarrow> real \<Rightarrow> real \<Rightarrow> Run" where
  "Run_text inlineTextItem logicalLeft logicalWidth =
     (let tw = trailingWhitespaceType inlineTextItem in
      \<lparr>m_type = Text,
       m_layoutBox = itemLayoutBox inlineTextItem,
       m_logicalLeft = logicalLeft,
       m_logicalWidth = logicalWidth,
       m_trailingWhitespaceType = tw,
       m_trailingWhitespaceWidth = (if tw \<noteq> NoTrailingWhitespace then logicalWidth else 0),
       m_textContent =
         Some \<lparr>textStart = itemStart inlineTextItem,
               textLength = (if tw = Collapsed then 1 else itemLength inlineTextItem)\<rparr>,
       m_expansion = \<lparr>behavior = DefaultExpansion, horizontalExpansion = 0\<rparr>,
       m_hyphenWidth = None\<rparr>)"

datatype error = IndexOutOfBounds | NoTextContent | NoTrimmableRun | AssertNotReached

text \<open>
  \<^verbatim>\<open>Run::expand\<close> (lines 475 to 491). \<^verbatim>\<open>m_textContent->length\<close> dereferences the
  optional text content.
\<close>

definition expand :: "InlineItem \<Rightarrow> real \<Rightarrow> Run \<Rightarrow> error + Run" where
  "expand inlineTextItem logicalWidth r =
     (case m_textContent r of
        None \<Rightarrow> Inl NoTextContent
      | Some tc \<Rightarrow>
          (let tw = trailingWhitespaceType inlineTextItem;
               r1 = r\<lparr>m_logicalWidth := m_logicalWidth r + logicalWidth,
                       m_trailingWhitespaceType := tw\<rparr>
           in if tw = NoTrailingWhitespace
              then Inr (r1\<lparr>m_trailingWhitespaceWidth := 0,
                           m_textContent :=
                             Some (tc\<lparr>textLength := textLength tc + itemLength inlineTextItem\<rparr>)\<rparr>)
              else Inr (r1\<lparr>m_trailingWhitespaceWidth := m_trailingWhitespaceWidth r + logicalWidth,
                           m_textContent :=
                             Some (tc\<lparr>textLength := textLength tc
                               + (if tw = Collapsed then 1 else itemLength inlineTextItem)\<rparr>)\<rparr>)))"

text \<open>Trailing letter spacing of a run (lines 493 to 510).\<close>

definition hasTrailingLetterSpacing :: "Run \<Rightarrow> bool" where
  "hasTrailingLetterSpacing r =
     (\<not> hasTrailingWhitespace r \<and> letterSpacing (style (m_layoutBox r)) > 0)"

definition trailingLetterSpacing :: "Run \<Rightarrow> real" where
  "trailingLetterSpacing r =
     (if \<not> hasTrailingLetterSpacing r then 0 else letterSpacing (style (m_layoutBox r)))"

definition removeTrailingLetterSpacing :: "Run \<Rightarrow> Run" where
  "removeTrailingLetterSpacing r = shrinkHorizontally (trailingLetterSpacing r) r"

text \<open>
  \<^verbatim>\<open>Run::visuallyCollapseTrailingWhitespace\<close> (lines 522 to 534) returns the trimmed
  width with the updated run.
\<close>

definition visuallyCollapseTrailingWhitespace :: "real \<Rightarrow> Run \<Rightarrow> real \<times> Run" where
  "visuallyCollapseTrailingWhitespace tryCollapsingThisMuchSpace r =
     (let trimmedWidth = min tryCollapsingThisMuchSpace (m_trailingWhitespaceWidth r);
          r1 = shrinkHorizontally trimmedWidth r;
          r2 = r1\<lparr>m_trailingWhitespaceWidth := m_trailingWhitespaceWidth r1 - trimmedWidth\<rparr>
      in if m_trailingWhitespaceWidth r2 = 0
         then (trimmedWidth, r2\<lparr>m_trailingWhitespaceType := NoTrailingWhitespace\<rparr>)
         else (trimmedWidth, r2))"

text \<open>
  \<^verbatim>\<open>Run::removeTrailingWhitespace\<close> (lines 512 to 520). The length is a
  \<^verbatim>\<open>size_t\<close>: subtracting one from zero wraps to \<open>2 ^ 64 - 1\<close>.
\<close>

definition removeTrailingWhitespace :: "Run \<Rightarrow> error + Run" where
  "removeTrailingWhitespace r =
     (case m_textContent r of
        None \<Rightarrow> Inl NoTextContent
      | Some tc \<Rightarrow>
          (let len = (if textLength tc = 0 then 2 ^ 64 - 1 else textLength tc - 1);
               r1 = r\<lparr>m_textContent := Some (tc\<lparr>textLength := len\<rparr>)\<rparr>
           in Inr (snd (visuallyCollapseTrailingWhitespace (m_trailingWhitespaceWidth r1) r1))))"

subsection \<open>Trimmable trailing content\<close>

text \<open>
  \<^verbatim>\<open>TrimmableTrailingContent\<close> holds a reference to the run list of its line; the
  members that touch the runs take and return the list.
\<close>

record TrimmableTrailingContent =
  m_firstTrimmableRunIndex :: "nat option"
  m_hasFullyTrimmableContent :: bool
  m_fullyTrimmableWidth :: real
  m_partiallyTrimmableWidth :: real

text \<open>
  Modelled from the spec: \<^verbatim>\<open>reset\<close>, \<^verbatim>\<open>width\<close>, \<^verbatim>\<open>isEmpty\<close> and
  \<^verbatim>\<open>isTrailingRunPartiallyTrimmable\<close> of \<^verbatim>\<open>TrimmableTrailingContent\<close> are
  defined in \<^verbatim>\<open>InlineLine.h\<close>, not under src/. Resetting clears the four fields;
  the width is the total of the fully and the partially trimmable width (spec, section
  4.3: the total width removed); tracking is empty when no first trimmable run is
  recorded; the trailing run is partially trimmable when a non-zero letter-spacing width
  is recorded.
\<close>

definition reset :: TrimmableTrailingContent where
  "reset = \<lparr>m_firstTrimmableRunIndex = None, m_hasFullyTrimmableContent = False,
            m_fullyTrimmableWidth = 0, m_partiallyTrimmableWidth = 0\<rparr>"

definition width :: "TrimmableTrailingContent \<Rightarrow> real" where
  "width t = m_fullyTrimmableWidth t + m_partiallyTrimmableWidth t"

definition isEmpty :: "TrimmableTrailingContent \<Rightarrow> bool" where
  "isEmpty t = (m_firstTrimmableRunIndex t = None)"

definition isTrailingRunPartiallyTrimmable :: "TrimmableTrailingContent \<Rightarrow> bool" where
  "isTrailingRunPartiallyTrimmable t = (m_partiallyTrimmableWidth t \<noteq> 0)"

text \<open>Lines 384 to 403.\<close>

definition addFullyTrimmableContent ::
  "nat \<Rightarrow> real \<Rightarrow> TrimmableTrailingContent \<Rightarrow> TrimmableTrailingContent" where
  "addFullyTrimmableContent runIndex trimmableWidth t =
     t\<lparr>m_fullyTrimmableWidth := trimmableWidth,
       m_hasFullyTrimmableContent := True,
       m_firstTrimmableRunIndex :=
         (case m_firstTrimmableRunIndex t of None \<Rightarrow> Some runIndex | Some i \<Rightarrow> Some i)\<rparr>"

definition addPartiallyTrimmableContent ::
  "nat \<Rightarrow> real \<Rightarrow> TrimmableTrailingContent \<Rightarrow> TrimmableTrailingContent" where
  "addPartiallyTrimmableContent runIndex trimmableWidth t =
     t\<lparr>m_partiallyTrimmableWidth := trimmableWidth,
       m_firstTrimmableRunIndex := Some runIndex\<rparr>"

text \<open>
  \<^verbatim>\<open>TrimmableTrailingContent::remove\<close> (lines 405 to 438): the trimmed width, the
  reset tracker and the new run list.
\<close>

definition remove ::
  "TrimmableTrailingContent \<Rightarrow> Run list
     \<Rightarrow> error + (real \<times> TrimmableTrailingContent \<times> Run list)" where
  "remove t runs =
     (case m_firstTrimmableRunIndex t of
        None \<Rightarrow> Inl NoTrimmableRun
      | Some i \<Rightarrow>
          if length runs \<le> i then Inl IndexOutOfBounds
          else
            (case (if m_hasFullyTrimmableContent t then removeTrailingWhitespace (runs ! i)
                   else Inr (runs ! i)) of
               Inl e \<Rightarrow> Inl e
             | Inr r1 \<Rightarrow>
                 (let r2 = (if m_partiallyTrimmableWidth t \<noteq> 0
                            then removeTrailingLetterSpacing r1 else r1);
                      trimmableWidth = width t;
                      runs1 = take i runs @ [r2]
                        @ map (moveHorizontally (- trimmableWidth)) (drop (Suc i) runs)
                  in case m_textContent r2 of
                       None \<Rightarrow> Inl NoTextContent
                     | Some tc \<Rightarrow>
                         Inr (trimmableWidth, reset,
                              if textLength tc = 0 then take i runs1 @ drop (Suc i) runs1
                              else runs1))))"

definition removePartiallyTrimmableContent ::
  "TrimmableTrailingContent \<Rightarrow> Run list
     \<Rightarrow> error + (real \<times> TrimmableTrailingContent \<times> Run list)" where
  "removePartiallyTrimmableContent t runs = remove t runs"

subsection \<open>The line\<close>

record Line =
  m_runs :: "Run list"
  m_contentLogicalWidth :: real
  m_nonSpanningInlineLevelBoxCount :: nat
  m_trailingSoftHyphenWidth :: "real option"
  m_trimmableTrailingContent :: TrimmableTrailingContent

text \<open>
  What the line reads from its formatting context and from the engine-wide switches:
  the \<^verbatim>\<open>text-align\<close> of the root, the integration feature flag,
  \<^verbatim>\<open>shouldIgnoreTrailingLetterSpacing\<close>, the margin-start of a box's geometry, and
  \<^verbatim>\<open>FontCascade::expansionOpportunityCount\<close> on the text of a run (given by the
  box, the start and the length of the text, and the expansion behaviour). The last
  field is the rounding of an \<^verbatim>\<open>InlineLayoutUnit\<close> operation.
\<close>

record Env =
  textAlign :: TextAlignMode
  layoutFormattingContextIntegrationEnabled :: bool
  shouldIgnoreTrailingLetterSpacing :: bool
  marginStart :: "LayoutBox \<Rightarrow> real"
  expansionOpportunityCount ::
    "LayoutBox \<Rightarrow> nat \<Rightarrow> nat \<Rightarrow> ExpansionBehavior \<Rightarrow> nat \<times> bool"
  roundUnit :: "real \<Rightarrow> real"

definition initialize :: "Line \<Rightarrow> Line" where
  "initialize l =
     l\<lparr>m_nonSpanningInlineLevelBoxCount := 0,
       m_contentLogicalWidth := 0,
       m_runs := [],
       m_trailingSoftHyphenWidth := None,
       m_trimmableTrailingContent := reset\<rparr>"

text \<open>
  Modelled from the spec: \<^verbatim>\<open>Line::contentLogicalWidth\<close> and
  \<^verbatim>\<open>Line::contentLogicalRight\<close> are defined in \<^verbatim>\<open>InlineLine.h\<close>, not under
  src/. The content width is the field; the content right is the right edge of the last
  run, zero on a line without runs (spec, section 4.1: a new run starts at the current
  content-right).
\<close>

definition contentLogicalWidth :: "Line \<Rightarrow> real" where
  "contentLogicalWidth l = m_contentLogicalWidth l"

definition contentLogicalRight :: "Line \<Rightarrow> real" where
  "contentLogicalRight l = (if m_runs l = [] then 0 else logicalRight (last (m_runs l)))"

text \<open>
  The backward scan of \<^verbatim>\<open>willCollapseCompletely\<close> (lines 264 to 277), on the runs
  from the last to the first.
\<close>

fun lastItemIsCollapsed :: "Run list \<Rightarrow> bool" where
  "lastItemIsCollapsed [] = True"
| "lastItemIsCollapsed (run # rest) =
     (if isBox run then False
      else if isText run then hasCollapsibleTrailingWhitespace run
      else lastItemIsCollapsed rest)"

definition willCollapseCompletely :: "Line \<Rightarrow> InlineItem \<Rightarrow> bool" where
  "willCollapseCompletely l inlineTextItem =
     (if isEmptyContent inlineTextItem then True
      else if \<not> isWhitespace inlineTextItem then False
      else if itemPreservesSpacesAndTabs inlineTextItem then False
      else lastItemIsCollapsed (rev (m_runs l)))"

definition needsNewRun :: "Line \<Rightarrow> InlineItem \<Rightarrow> bool" where
  "needsNewRun l inlineTextItem =
     (if m_runs l = [] then True
      else if boxAddress (m_layoutBox (last (m_runs l)))
                \<noteq> boxAddress (itemLayoutBox inlineTextItem) then True
      else if \<not> isText (last (m_runs l)) then True
      else if hasCollapsedTrailingWhitespace (last (m_runs l)) then True
      else if isWordSeparator inlineTextItem
                \<and> wordSpacing (style (itemLayoutBox inlineTextItem)) \<noteq> 0 then True
      else False)"

text \<open>
  The end of \<^verbatim>\<open>appendTextContent\<close> (lines 308 to 317), once the run is placed:
  \<open>oldContentLogicalWidth\<close> is the content width before the placement.
\<close>

definition setTrailingTrimmableContent :: "Env \<Rightarrow> InlineItem \<Rightarrow> real \<Rightarrow> Line \<Rightarrow> Line" where
  "setTrailingTrimmableContent env inlineTextItem oldContentLogicalWidth l =
     (if isWhitespace inlineTextItem \<and> \<not> itemPreservesSpacesAndTabs inlineTextItem
      then l\<lparr>m_trimmableTrailingContent :=
               addFullyTrimmableContent (length (m_runs l) - 1)
                 (contentLogicalWidth l - oldContentLogicalWidth)
                 (m_trimmableTrailingContent l)\<rparr>
      else
        (let st = style (itemLayoutBox inlineTextItem);
             t = (if \<not> shouldIgnoreTrailingLetterSpacing env \<and> \<not> isWhitespace inlineTextItem
                     \<and> letterSpacing st > 0
                  then addPartiallyTrimmableContent (length (m_runs l) - 1) (letterSpacing st) reset
                  else reset)
         in l\<lparr>m_trimmableTrailingContent := t,
               m_trailingSoftHyphenWidth :=
                 (if hasTrailingSoftHyphen inlineTextItem then Some (hyphenStringWidth st)
                  else None)\<rparr>))"

text \<open>\<^verbatim>\<open>Line::appendTextContent\<close> (lines 253 to 318).\<close>

definition appendTextContent :: "Env \<Rightarrow> InlineItem \<Rightarrow> real \<Rightarrow> Line \<Rightarrow> error + Line" where
  "appendTextContent env inlineTextItem logicalWidth l =
     (if willCollapseCompletely l inlineTextItem then Inr l
      else
        (let oldContentLogicalWidth = contentLogicalWidth l in
         if needsNewRun l inlineTextItem
         then
           (let runLogicalLeft = contentLogicalRight l
                  + (if isWordSeparator inlineTextItem
                     then wordSpacing (style (itemLayoutBox inlineTextItem)) else 0)
            in Inr (setTrailingTrimmableContent env inlineTextItem oldContentLogicalWidth
                 (l\<lparr>m_runs := m_runs l @ [Run_text inlineTextItem runLogicalLeft logicalWidth],
                    m_contentLogicalWidth :=
                      max oldContentLogicalWidth (runLogicalLeft + logicalWidth)\<rparr>)))
         else
           (case expand inlineTextItem logicalWidth (last (m_runs l)) of
              Inl e \<Rightarrow> Inl e
            | Inr r \<Rightarrow>
                Inr (setTrailingTrimmableContent env inlineTextItem oldContentLogicalWidth
                  (l\<lparr>m_runs := butlast (m_runs l) @ [r],
                     m_contentLogicalWidth := m_contentLogicalWidth l + max 0 logicalWidth\<rparr>)))))"

text \<open>The other appenders (lines 224 to 251 and 320 to 360).\<close>

definition appendNonBreakableSpace :: "InlineItem \<Rightarrow> real \<Rightarrow> real \<Rightarrow> Line \<Rightarrow> Line" where
  "appendNonBreakableSpace inlineItem logicalLeft logicalWidth l =
     l\<lparr>m_runs := m_runs l @ [Run_item inlineItem logicalLeft logicalWidth],
       m_contentLogicalWidth := max (m_contentLogicalWidth l) (logicalLeft + logicalWidth)\<rparr>"

definition appendInlineBoxStart :: "InlineItem \<Rightarrow> real \<Rightarrow> Line \<Rightarrow> Line" where
  "appendInlineBoxStart inlineItem logicalWidth l =
     (let l1 = l\<lparr>m_nonSpanningInlineLevelBoxCount := m_nonSpanningInlineLevelBoxCount l + 1\<rparr>
      in appendNonBreakableSpace inlineItem (contentLogicalRight l1) logicalWidth l1)"

definition appendInlineBoxEnd :: "InlineItem \<Rightarrow> real \<Rightarrow> Line \<Rightarrow> error + Line" where
  "appendInlineBoxEnd inlineItem logicalWidth l =
     (if \<not> isTrailingRunPartiallyTrimmable (m_trimmableTrailingContent l)
      then Inr (appendNonBreakableSpace inlineItem (contentLogicalRight l) logicalWidth l)
      else
        (case removePartiallyTrimmableContent (m_trimmableTrailingContent l) (m_runs l) of
           Inl e \<Rightarrow> Inl e
         | Inr (w, t, runs) \<Rightarrow>
             (let l1 = l\<lparr>m_runs := runs, m_trimmableTrailingContent := t,
                          m_contentLogicalWidth := m_contentLogicalWidth l - w\<rparr>
              in Inr (appendNonBreakableSpace inlineItem (contentLogicalRight l1)
                        logicalWidth l1))))"

definition appendNonReplacedInlineLevelBox :: "Env \<Rightarrow> InlineItem \<Rightarrow> real \<Rightarrow> Line \<Rightarrow> Line" where
  "appendNonReplacedInlineLevelBox env inlineItem marginBoxLogicalWidth l =
     (let l1 = l\<lparr>m_trimmableTrailingContent := reset,
                  m_trailingSoftHyphenWidth := None,
                  m_contentLogicalWidth := m_contentLogicalWidth l + marginBoxLogicalWidth,
                  m_nonSpanningInlineLevelBoxCount := m_nonSpanningInlineLevelBoxCount l + 1\<rparr>;
          ms = marginStart env (itemLayoutBox inlineItem)
      in if ms \<ge> 0
         then l1\<lparr>m_runs := m_runs l1
                   @ [Run_item inlineItem (contentLogicalRight l1) marginBoxLogicalWidth]\<rparr>
         else l1\<lparr>m_runs := m_runs l1
                   @ [Run_item inlineItem (roundUnit env (contentLogicalRight l1 + ms))
                        (roundUnit env (marginBoxLogicalWidth - ms))]\<rparr>)"

definition appendReplacedInlineLevelBox :: "Env \<Rightarrow> InlineItem \<Rightarrow> real \<Rightarrow> Line \<Rightarrow> Line" where
  "appendReplacedInlineLevelBox env inlineItem marginBoxLogicalWidth l =
     appendNonReplacedInlineLevelBox env inlineItem marginBoxLogicalWidth l"

definition appendLineBreak :: "InlineItem \<Rightarrow> Line \<Rightarrow> Line" where
  "appendLineBreak inlineItem l =
     (let l1 = l\<lparr>m_trailingSoftHyphenWidth := None\<rparr> in
      if itemType inlineItem = HardLineBreak
      then l1\<lparr>m_nonSpanningInlineLevelBoxCount := m_nonSpanningInlineLevelBoxCount l1 + 1,
              m_runs := m_runs l1 @ [Run_item inlineItem (contentLogicalRight l1) 0]\<rparr>
      else l1\<lparr>m_runs := m_runs l1 @ [Run_softLineBreak inlineItem (contentLogicalRight l1)]\<rparr>)"

definition appendWordBreakOpportunity :: "InlineItem \<Rightarrow> Line \<Rightarrow> Line" where
  "appendWordBreakOpportunity inlineItem l =
     l\<lparr>m_runs := m_runs l @ [Run_item inlineItem (contentLogicalRight l) 0]\<rparr>"

text \<open>
  \<^verbatim>\<open>Line::append\<close> (lines 204 to 222), named \<open>append_line\<close> since \<open>append\<close>
  is the concatenation of lists in HOL. Every item kind is taken by one of the
  branches: the one left for the last two tests is \<open>Box\<close>.
\<close>

definition append_line :: "Env \<Rightarrow> InlineItem \<Rightarrow> real \<Rightarrow> Line \<Rightarrow> error + Line" where
  "append_line env inlineItem logicalWidth l =
     (if itemType inlineItem = Text then appendTextContent env inlineItem logicalWidth l
      else if itemType inlineItem = HardLineBreak \<or> itemType inlineItem = SoftLineBreak
        then Inr (appendLineBreak inlineItem l)
      else if itemType inlineItem = WordBreakOpportunity
        then Inr (appendWordBreakOpportunity inlineItem l)
      else if itemType inlineItem = InlineBoxStart
        then Inr (appendInlineBoxStart inlineItem logicalWidth l)
      else if itemType inlineItem = InlineBoxEnd
        then appendInlineBoxEnd inlineItem logicalWidth l
      else if isReplacedBox (itemLayoutBox inlineItem)
        then Inr (appendReplacedInlineLevelBox env inlineItem logicalWidth l)
      else if itemType inlineItem = Box
        then Inr (appendNonReplacedInlineLevelBox env inlineItem logicalWidth l)
      else Inl AssertNotReached)"

subsection \<open>End-of-line trimming\<close>

definition isTextAlignRight :: "Env \<Rightarrow> bool" where
  "isTextAlignRight env =
     (textAlign env = AlignRight \<or> textAlign env = WebKitRight \<or> textAlign env = AlignEnd)"

text \<open>\<^verbatim>\<open>Line::removeTrailingTrimmableContent\<close> (lines 143 to 164).\<close>

definition removeTrailingTrimmableContent :: "Env \<Rightarrow> Line \<Rightarrow> error + Line" where
  "removeTrailingTrimmableContent env l =
     (if isEmpty (m_trimmableTrailingContent l) \<or> m_runs l = [] then Inr l
      else if layoutFormattingContextIntegrationEnabled env
                \<and> isLineBreak (last (m_runs l)) \<and> \<not> isTextAlignRight env
        then Inr (l\<lparr>m_trimmableTrailingContent := reset\<rparr>)
      else
        (case remove (m_trimmableTrailingContent l) (m_runs l) of
           Inl e \<Rightarrow> Inl e
         | Inr (w, t, runs) \<Rightarrow>
             Inr (l\<lparr>m_runs := runs, m_trimmableTrailingContent := t,
                    m_contentLogicalWidth := m_contentLogicalWidth l - w\<rparr>)))"

text \<open>
  The loop of \<^verbatim>\<open>visuallyCollapsePreWrapOverflowContent\<close> (lines 178 to 200), on the
  runs from the last to the first: the runs as it leaves them and the trimmed width.
\<close>

fun collapsePreWrapRuns :: "Run list \<Rightarrow> real \<Rightarrow> real \<Rightarrow> Run list \<times> real" where
  "collapsePreWrapRuns [] overflowWidth trimmedContentWidth = ([], trimmedContentWidth)"
| "collapsePreWrapRuns (run # rest) overflowWidth trimmedContentWidth =
     (if whiteSpace (style (m_layoutBox run)) \<noteq> PreWrap
      then (run # rest, trimmedContentWidth)
      else if \<not> (isInlineBoxStart run \<or> isInlineBoxEnd run \<or> hasTrailingWhitespace run)
      then (run # rest, trimmedContentWidth)
      else
        (let (trimmableWidth, run1) =
               (if isText run then visuallyCollapseTrailingWhitespace overflowWidth run
                else (m_logicalWidth run, shrinkHorizontally (m_logicalWidth run) run))
         in if overflowWidth - trimmableWidth \<le> 0
            then (run1 # rest, trimmedContentWidth + trimmableWidth)
            else
              (let (rest1, w) = collapsePreWrapRuns rest (overflowWidth - trimmableWidth)
                                  (trimmedContentWidth + trimmableWidth)
               in (run1 # rest1, w))))"

definition visuallyCollapsePreWrapOverflowContent :: "real \<Rightarrow> Line \<Rightarrow> Line" where
  "visuallyCollapsePreWrapOverflowContent extraHorizontalSpace l =
     (let overflowWidth = - extraHorizontalSpace in
      if overflowWidth \<le> 0 then l
      else
        (let (runs, trimmedContentWidth) = collapsePreWrapRuns (rev (m_runs l)) overflowWidth 0
         in l\<lparr>m_runs := rev runs,
               m_contentLogicalWidth := m_contentLogicalWidth l - trimmedContentWidth\<rparr>))"


text \<open>\<^verbatim>\<open>Line::removeCollapsibleContent\<close> (lines 62 to 66).\<close>

definition removeCollapsibleContent :: "Env \<Rightarrow> real \<Rightarrow> Line \<Rightarrow> error + Line" where
  "removeCollapsibleContent env extraHorizontalSpace l =
     (case removeTrailingTrimmableContent env l of
        Inl e \<Rightarrow> Inl e
      | Inr l1 \<Rightarrow> Inr (visuallyCollapsePreWrapOverflowContent extraHorizontalSpace l1))"

subsection \<open>Justification\<close>

text \<open>
  The locals of \<^verbatim>\<open>applyRunExpansion\<close> (lines 81 to 87). The two vectors are
  assigned at \<^verbatim>\<open>runIndex\<close> in increasing order; the model appends, so the entry of
  run \<open>i\<close> is the \<open>i\<close>-th element and the number of entries is the loop index.
\<close>

record ExpansionOpportunities =
  lineExpansionOpportunities :: nat
  runsExpansionOpportunities :: "nat list"
  runsExpansionBehaviors :: "ExpansionBehavior list"
  lastRunIndexWithContent :: "nat option"
  runIsAfterExpansion :: bool

text \<open>
  One pass of the first loop for one run (lines 89 to 102): the behaviour, the
  opportunity count and the new \<^verbatim>\<open>runIsAfterExpansion\<close>.
\<close>

definition runExpansionOpportunities ::
  "Env \<Rightarrow> Run \<Rightarrow> bool \<Rightarrow> error + (ExpansionBehavior \<times> nat \<times> bool)" where
  "runExpansionOpportunities env run isAfterExpansion =
     (if isText run \<and> \<not> boxPreservesSpacesAndTabs (m_layoutBox run)
      then
        (if textCombine (style (m_layoutBox run)) = Horizontal
         then Inr ((ForbidLeftExpansion, ForbidRightExpansion), 0, isAfterExpansion)
         else
           (let expansionBehavior =
                  (if isAfterExpansion then ForbidLeftExpansion else AllowLeftExpansion,
                   AllowRightExpansion)
            in case m_textContent run of
                 None \<Rightarrow> Inl NoTextContent
               | Some tc \<Rightarrow>
                   (let (n, after) = expansionOpportunityCount env (m_layoutBox run)
                                       (textStart tc) (textLength tc) expansionBehavior
                    in Inr (expansionBehavior, n, after))))
      else if isBox run then Inr (DefaultExpansion, 0, False)
      else Inr (DefaultExpansion, 0, isAfterExpansion))"

fun collectExpansionOpportunities ::
  "Env \<Rightarrow> Run list \<Rightarrow> ExpansionOpportunities \<Rightarrow> error + ExpansionOpportunities" where
  "collectExpansionOpportunities env [] s = Inr s"
| "collectExpansionOpportunities env (run # rest) s =
     (case runExpansionOpportunities env run (runIsAfterExpansion s) of
        Inl e \<Rightarrow> Inl e
      | Inr (expansionBehavior, expansionOpportunitiesInRun, after) \<Rightarrow>
          collectExpansionOpportunities env rest
            (s\<lparr>runsExpansionBehaviors := runsExpansionBehaviors s @ [expansionBehavior],
               runsExpansionOpportunities :=
                 runsExpansionOpportunities s @ [expansionOpportunitiesInRun],
               lineExpansionOpportunities :=
                 lineExpansionOpportunities s + expansionOpportunitiesInRun,
               lastRunIndexWithContent :=
                 (if isText run \<or> isBox run then Some (length (runsExpansionOpportunities s))
                  else lastRunIndexWithContent s),
               runIsAfterExpansion := after\<rparr>))"

definition noExpansionOpportunities :: ExpansionOpportunities where
  "noExpansionOpportunities =
     \<lparr>lineExpansionOpportunities = 0, runsExpansionOpportunities = [],
      runsExpansionBehaviors = [], lastRunIndexWithContent = None,
      runIsAfterExpansion = True\<rparr>"

text \<open>
  The fix-up of the last run with content (lines 112 to 123). The decrements are
  reached with a count of that run that is not zero, and the line's total is at least
  that count, so neither wraps.
\<close>

definition fixUpLastRun :: "ExpansionOpportunities \<Rightarrow> ExpansionOpportunities" where
  "fixUpLastRun s =
     (case lastRunIndexWithContent s of
        None \<Rightarrow> s
      | Some i \<Rightarrow>
          if runsExpansionOpportunities s ! i \<noteq> 0
          then
            (let leadingExpansion = fst (runsExpansionBehaviors s ! i);
                 s1 = s\<lparr>runsExpansionBehaviors :=
                          (runsExpansionBehaviors s)[i := (leadingExpansion, ForbidRightExpansion)]\<rparr>
             in if runIsAfterExpansion s1
                then s1\<lparr>lineExpansionOpportunities := lineExpansionOpportunities s1 - 1,
                        runsExpansionOpportunities :=
                          (runsExpansionOpportunities s1)
                            [i := runsExpansionOpportunities s1 ! i - 1]\<rparr>
                else s1)
          else s)"

text \<open>
  The opportunities of a run list as \<^verbatim>\<open>applyRunExpansion\<close> has them at line 124,
  after the first loop and the fix-up.
\<close>

definition expansionOpportunities :: "Env \<Rightarrow> Run list \<Rightarrow> error + ExpansionOpportunities" where
  "expansionOpportunities env runs =
     (case collectExpansionOpportunities env runs noExpansionOpportunities of
        Inl e \<Rightarrow> Inl e
      | Inr s \<Rightarrow> Inr (fixUpLastRun s))"

text \<open>
  The second loop (lines 130 to 138): the expanded runs and the accumulated expansion.
  \<open>fl\<close> is the rounding of the unit: the count of a run is converted to the unit,
  the product of line 134 and the running sum of line 137 are rounded.
\<close>

fun distributeExpansion ::
  "(real \<Rightarrow> real) \<Rightarrow> real \<Rightarrow> Run list \<Rightarrow> nat list \<Rightarrow> ExpansionBehavior list \<Rightarrow> real
     \<Rightarrow> Run list \<times> real" where
  "distributeExpansion fl expansionToDistribute (run # runs) (n # ns) (b # bs)
       accumulatedExpansion =
     (let computedExpansion = fl (expansionToDistribute * fl (real n));
          run1 = shrinkHorizontally (- computedExpansion)
                   (setExpansion \<lparr>behavior = b, horizontalExpansion = computedExpansion\<rparr>
                      (moveHorizontally accumulatedExpansion run));
          (runs1, acc) = distributeExpansion fl expansionToDistribute runs ns bs
                           (fl (accumulatedExpansion + computedExpansion))
      in (run1 # runs1, acc))"
| "distributeExpansion fl expansionToDistribute runs ns bs accumulatedExpansion =
     ([], accumulatedExpansion)"

text \<open>\<^verbatim>\<open>Line::applyRunExpansion\<close> (lines 68 to 141).\<close>

definition applyRunExpansion :: "Env \<Rightarrow> real \<Rightarrow> Line \<Rightarrow> error + Line" where
  "applyRunExpansion env extraHorizontalSpace l =
     (if m_runs l = [] \<or> isLineBreak (last (m_runs l)) then Inr l
      else if extraHorizontalSpace = 0 then Inr l
      else
        (case expansionOpportunities env (m_runs l) of
           Inl e \<Rightarrow> Inl e
         | Inr s \<Rightarrow>
             if lineExpansionOpportunities s = 0 then Inr l
             else
               (let expansionToDistribute =
                      roundUnit env
                        (extraHorizontalSpace
                           / roundUnit env (real (lineExpansionOpportunities s)));
                    (runs, accumulatedExpansion) =
                      distributeExpansion (roundUnit env) expansionToDistribute (m_runs l)
                        (runsExpansionOpportunities s) (runsExpansionBehaviors s) 0
                in Inr (l\<lparr>m_runs := runs,
                          m_contentLogicalWidth :=
                            roundUnit env
                              (m_contentLogicalWidth l + accumulatedExpansion)\<rparr>))))"

text \<open>
  What it means that the roundings of the second loop err by at most \<open>eps\<close> each. For
  a run with opportunities the conversion of its count is exact, and the product of line
  134 and the running sum of line 137 are each within \<open>eps\<close> of the exact result. For
  a run without opportunity the product is zero and the sum leaves the running sum as
  it is, as float arithmetic does.
\<close>

fun roundsWithin :: "(real \<Rightarrow> real) \<Rightarrow> real \<Rightarrow> real \<Rightarrow> nat list \<Rightarrow> real \<Rightarrow> bool" where
  "roundsWithin fl eps d [] acc = True"
| "roundsWithin fl eps d (n # ns) acc =
     (let computedExpansion = fl (d * fl (real n));
          acc1 = fl (acc + computedExpansion)
      in (if n = 0 then computedExpansion = 0 \<and> acc1 = acc
          else fl (real n) = real n
             \<and> \<bar>computedExpansion - d * real n\<bar> \<le> eps
             \<and> \<bar>acc1 - (acc + computedExpansion)\<bar> \<le> eps)
         \<and> roundsWithin fl eps d ns acc1)"

text \<open>
  The extra space \<open>E\<close> is evenly divisible by the total of the opportunities \<open>s\<close> of
  line \<open>l\<close>, and every later rounding of the distribution errs by at most \<open>eps\<close>: the
  conversion of the total and the quotient of line 128 are exact, the second loop
  rounds within \<open>eps\<close>, and so does the sum of line 140.
\<close>

definition distributionRoundsWithin ::
  "Env \<Rightarrow> real \<Rightarrow> real \<Rightarrow> Line \<Rightarrow> ExpansionOpportunities \<Rightarrow> bool" where
  "distributionRoundsWithin env eps E l s =
     (let fl = roundUnit env;
          total = real (lineExpansionOpportunities s);
          acc = snd (distributeExpansion fl (E / total) (m_runs l)
                       (runsExpansionOpportunities s) (runsExpansionBehaviors s) 0)
      in fl total = total
       \<and> fl (E / total) = E / total
       \<and> roundsWithin fl eps (E / total) (runsExpansionOpportunities s) 0
       \<and> \<bar>fl (m_contentLogicalWidth l + acc) - (m_contentLogicalWidth l + acc)\<bar> \<le> eps)"

subsection \<open>Hyphenation\<close>

text \<open>
  The loop of \<^verbatim>\<open>addTrailingHyphen\<close> (lines 364 to 370) on the runs from the last to
  the first; \<open>None\<close> when it runs off the list.
\<close>

fun hyphenateLastTextRun :: "real \<Rightarrow> Run list \<Rightarrow> Run list option" where
  "hyphenateLastTextRun hyphenLogicalWidth [] = None"
| "hyphenateLastTextRun hyphenLogicalWidth (run # rest) =
     (if \<not> isText run
      then (case hyphenateLastTextRun hyphenLogicalWidth rest of
              None \<Rightarrow> None
            | Some rest1 \<Rightarrow> Some (run # rest1))
      else Some (setNeedsHyphen hyphenLogicalWidth run # rest))"

definition addTrailingHyphen :: "real \<Rightarrow> Line \<Rightarrow> error + Line" where
  "addTrailingHyphen hyphenLogicalWidth l =
     (case hyphenateLastTextRun hyphenLogicalWidth (rev (m_runs l)) of
        None \<Rightarrow> Inl AssertNotReached
      | Some runs \<Rightarrow>
          Inr (l\<lparr>m_runs := rev runs,
                 m_contentLogicalWidth := m_contentLogicalWidth l + hyphenLogicalWidth\<rparr>))"

subsection \<open>The caller's loop\<close>

text \<open>
  The line-breaking loop calls \<^verbatim>\<open>Line::append\<close> for each item with its measured
  width, in order; it stops at the first error.
\<close>

fun appendItems :: "Env \<Rightarrow> (InlineItem \<times> real) list \<Rightarrow> Line \<Rightarrow> error + Line" where
  "appendItems env [] l = Inr l"
| "appendItems env ((inlineItem, logicalWidth) # rest) l =
     (case append_line env inlineItem logicalWidth l of
        Inl e \<Rightarrow> Inl e
      | Inr l1 \<Rightarrow> appendItems env rest l1)"

text \<open>
  The operations a caller has on a line, and a sequence of them carried out in order up
  to the first error.
\<close>

datatype LineOperation =
  Append InlineItem real
  | RemoveCollapsibleContent real
  | ApplyRunExpansion real
  | AddTrailingHyphen real
  | Initialize

fun perform :: "Env \<Rightarrow> LineOperation \<Rightarrow> Line \<Rightarrow> error + Line" where
  "perform env (Append inlineItem logicalWidth) l = append_line env inlineItem logicalWidth l"
| "perform env (RemoveCollapsibleContent extraHorizontalSpace) l =
     removeCollapsibleContent env extraHorizontalSpace l"
| "perform env (ApplyRunExpansion extraHorizontalSpace) l =
     applyRunExpansion env extraHorizontalSpace l"
| "perform env (AddTrailingHyphen hyphenLogicalWidth) l = addTrailingHyphen hyphenLogicalWidth l"
| "perform env Initialize l = Inr (initialize l)"

fun performAll :: "Env \<Rightarrow> LineOperation list \<Rightarrow> Line \<Rightarrow> error + Line" where
  "performAll env [] l = Inr l"
| "performAll env (operation # rest) l =
     (case perform env operation l of
        Inl e \<Rightarrow> Inl e
      | Inr l1 \<Rightarrow> performAll env rest l1)"

text \<open>Two calls in a row, the second on the result of the first.\<close>

definition andThen :: "error + Line \<Rightarrow> (Line \<Rightarrow> error + Line) \<Rightarrow> error + Line" where
  "andThen r f = (case r of Inl e \<Rightarrow> Inl e | Inr l \<Rightarrow> f l)"

subsection \<open>Example inputs\<close>

definition exStyle :: RenderStyle where
  "exStyle = \<lparr>whiteSpace = Normal, textCombine = TextCombineNone, letterSpacing = 0,
              wordSpacing = 0, hyphenStringWidth = 4\<rparr>"

definition exStylePreWrap :: RenderStyle where
  "exStylePreWrap = exStyle\<lparr>whiteSpace := PreWrap\<rparr>"

definition exStyleSpaced :: RenderStyle where
  "exStyleSpaced = exStyle\<lparr>letterSpacing := 2\<rparr>"

definition exLayoutBox :: "nat \<Rightarrow> RenderStyle \<Rightarrow> LayoutBox" where
  "exLayoutBox a st =
     \<lparr>boxAddress = a, isReplacedBox = False, style = st, boxPreservesSpacesAndTabs = False\<rparr>"

text \<open>
  In the example context the box at address 7 has a margin-start of -100 and every
  other box of 0; a text of \<open>n\<close> characters has \<open>n div 2\<close> expansion opportunities and
  ends after an expansion when \<open>n\<close> is even; the arithmetic is exact.
\<close>

definition exEnv :: Env where
  "exEnv =
     \<lparr>textAlign = Justify, layoutFormattingContextIntegrationEnabled = False,
      shouldIgnoreTrailingLetterSpacing = False,
      marginStart = (\<lambda>b. if boxAddress b = 7 then - 100 else 0),
      expansionOpportunityCount = (\<lambda>b start len beh. (len div 2, even len)),
      roundUnit = (\<lambda>x. x)\<rparr>"

text \<open>
  The same context in single precision, where the box at address 9 has a margin-start
  of -3.
\<close>

definition exFloatEnv :: Env where
  "exFloatEnv =
     exEnv\<lparr>roundUnit := float32,
           marginStart := (\<lambda>b. if boxAddress b = 9 then - 3 else 0)\<rparr>"

definition exLine :: "Run list \<Rightarrow> real \<Rightarrow> Line" where
  "exLine runs w =
     \<lparr>m_runs = runs, m_contentLogicalWidth = w, m_nonSpanningInlineLevelBoxCount = 0,
      m_trailingSoftHyphenWidth = None, m_trimmableTrailingContent = reset\<rparr>"

text \<open>
  Collapsible whitespace of \<open>len\<close> characters in the box at address \<open>a\<close> with
  style \<open>st\<close>.
\<close>

definition exSpaces :: "nat \<Rightarrow> RenderStyle \<Rightarrow> nat \<Rightarrow> nat \<Rightarrow> InlineItem" where
  "exSpaces a st start len =
     \<lparr>itemType = Text, itemLayoutBox = exLayoutBox a st, itemStart = start,
      itemLength = len, isWhitespace = True, isWordSeparator = True,
      hasTrailingSoftHyphen = False, isEmptyContent = False,
      itemPreservesSpacesAndTabs = False\<rparr>"

text \<open>
  Preserved whitespace of \<open>len\<close> characters in the box at address \<open>a\<close> with style
  \<open>st\<close>.
\<close>

definition exPreservedSpaces :: "nat \<Rightarrow> RenderStyle \<Rightarrow> nat \<Rightarrow> nat \<Rightarrow> InlineItem" where
  "exPreservedSpaces a st start len =
     \<lparr>itemType = Text, itemLayoutBox = exLayoutBox a st, itemStart = start,
      itemLength = len, isWhitespace = True, isWordSeparator = True,
      hasTrailingSoftHyphen = False, isEmptyContent = False,
      itemPreservesSpacesAndTabs = True\<rparr>"

text \<open>A word of \<open>len\<close> characters in the box at address \<open>a\<close> with style \<open>st\<close>.\<close>

definition exWord :: "nat \<Rightarrow> RenderStyle \<Rightarrow> nat \<Rightarrow> nat \<Rightarrow> InlineItem" where
  "exWord a st start len =
     \<lparr>itemType = Text, itemLayoutBox = exLayoutBox a st, itemStart = start,
      itemLength = len, isWhitespace = False, isWordSeparator = False,
      hasTrailingSoftHyphen = False, isEmptyContent = False,
      itemPreservesSpacesAndTabs = False\<rparr>"

text \<open>An item of kind \<open>ty\<close> that is not text, for the box at address \<open>a\<close>.\<close>

definition exItem :: "ItemType \<Rightarrow> nat \<Rightarrow> InlineItem" where
  "exItem ty a =
     \<lparr>itemType = ty, itemLayoutBox = exLayoutBox a exStyle, itemStart = 0,
      itemLength = 0, isWhitespace = False, isWordSeparator = False,
      hasTrailingSoftHyphen = False, isEmptyContent = False,
      itemPreservesSpacesAndTabs = False\<rparr>"

text \<open>Three words side by side, each in its own box, of \<open>a\<close>, \<open>b\<close> and \<open>c\<close> characters.\<close>

definition exJustifiedLine :: "nat \<Rightarrow> nat \<Rightarrow> nat \<Rightarrow> Line" where
  "exJustifiedLine a b c =
     exLine [Run_text (exWord 1 exStyle 0 a) 0 30, Run_text (exWord 2 exStyle 0 b) 30 30,
             Run_text (exWord 3 exStyle 0 c) 60 30] 90"

text \<open>What the first loop of \<^verbatim>\<open>applyRunExpansion\<close> collects on \<open>exJustifiedLine 3 3 2\<close>.\<close>

definition exCollected :: ExpansionOpportunities where
  "exCollected =
     \<lparr>lineExpansionOpportunities = 3, runsExpansionOpportunities = [1, 1, 1],
      runsExpansionBehaviors =
        [(ForbidLeftExpansion, AllowRightExpansion), (AllowLeftExpansion, AllowRightExpansion),
         (AllowLeftExpansion, AllowRightExpansion)],
      lastRunIndexWithContent = Some 2, runIsAfterExpansion = True\<rparr>"

text \<open>
  Two words of seven and three characters (three opportunities and one), 70 and 30
  wide, and the opportunities that \<^verbatim>\<open>applyRunExpansion\<close> counts on them.
\<close>

definition exFloatLine :: Line where
  "exFloatLine =
     exLine [Run_text (exWord 1 exStyle 0 7) 0 70, Run_text (exWord 2 exStyle 0 3) 70 30] 100"

definition exFloatOpportunities :: ExpansionOpportunities where
  "exFloatOpportunities =
     \<lparr>lineExpansionOpportunities = 4, runsExpansionOpportunities = [3, 1],
      runsExpansionBehaviors =
        [(ForbidLeftExpansion, AllowRightExpansion), (AllowLeftExpansion, ForbidRightExpansion)],
      lastRunIndexWithContent = Some 1, runIsAfterExpansion = False\<rparr>"

text \<open>The line of a result, \<open>d\<close> on an error.\<close>

definition resultOr :: "Line \<Rightarrow> error + Line \<Rightarrow> Line" where
  "resultOr d r = (case r of Inl e \<Rightarrow> d | Inr l \<Rightarrow> l)"

text \<open>
  The spec's scenario "Hello ": a word of five characters, 50 wide, and one collapsible
  space, 4 wide, appended to an empty line; and that line after
  \<^verbatim>\<open>removeCollapsibleContent\<close> with 5 units of space left.
\<close>

definition exHelloLine :: Line where
  "exHelloLine =
     resultOr (exLine [] 0)
       (appendItems exEnv [(exWord 1 exStyle 0 5, 50), (exSpaces 1 exStyle 5 1, 4)]
          (exLine [] 0))"

definition exHelloTrimmed :: Line where
  "exHelloTrimmed = resultOr (exLine [] 0) (removeCollapsibleContent exEnv 5 exHelloLine)"

subsection \<open>The trailing-whitespace invariant of a run\<close>

text \<open>A run without trailing whitespace has no trailing-whitespace width.\<close>

definition run_ok :: "Run \<Rightarrow> bool" where
  "run_ok r =
     (m_trailingWhitespaceType r = NoTrailingWhitespace \<longrightarrow> m_trailingWhitespaceWidth r = 0)"

definition line_ok :: "Line \<Rightarrow> bool" where
  "line_ok l = (\<forall>r\<in>set (m_runs l). run_ok r)"

text \<open>A projection of a result, \<open>None\<close> on an error.\<close>

definition onResult :: "('b \<Rightarrow> 'a) \<Rightarrow> error + 'b \<Rightarrow> 'a option" where
  "onResult f r = (case r of Inl e \<Rightarrow> None | Inr l \<Rightarrow> Some (f l))"

section \<open>Properties\<close>

subsection \<open>Rounding to single precision\<close>

text \<open>
  \<open>float32\<close> rounds to nearest: the result is within half a unit in the last place of
  its argument, so within \<open>2 ^ (k - 24)\<close> for a magnitude below \<open>2 ^ (k + 1)\<close>.
\<close>

lemma roundHalfEven_near: "\<bar>of_int (roundHalfEven x) - x\<bar> \<le> 1 / 2"
proof -
  have "of_int \<lfloor>x\<rfloor> \<le> x" "x < of_int \<lfloor>x\<rfloor> + 1" by linarith+
  then show ?thesis by (auto simp: roundHalfEven_def Let_def)
qed

lemma float32_near:
  "\<bar>float32 x - x\<bar> \<le> 2 powi (binaryExponent 253 127 \<bar>x\<bar> - 24)"
proof -
  define e where "e = binaryExponent 253 127 \<bar>x\<bar>"
  define ulp :: real where "ulp = 2 powi (e - 23)"
  have pos: "0 < ulp" by (simp add: ulp_def)
  have "float32 x - x = (of_int (roundHalfEven (x / ulp)) - x / ulp) * ulp"
    using pos by (simp add: float32_def Let_def e_def ulp_def algebra_simps)
  then have "\<bar>float32 x - x\<bar> = \<bar>of_int (roundHalfEven (x / ulp)) - x / ulp\<bar> * ulp"
    using pos by (simp add: abs_mult)
  also have "\<dots> \<le> 1 / 2 * ulp"
    using roundHalfEven_near[of "x / ulp"] pos by (intro mult_right_mono) simp_all
  also have "1 / 2 * ulp = 2 powi (e - 24)"
    by (simp add: ulp_def power_int_diff)
  finally show ?thesis by (simp add: e_def)
qed

lemma binaryExponent_cases:
  "binaryExponent fuel e x = e - int fuel \<or> 2 powi (binaryExponent fuel e x) \<le> x"
proof (induction fuel arbitrary: e)
  case 0
  then show ?case by simp
next
  case (Suc fuel)
  from Suc[of "e - 1"] show ?case by auto
qed

lemma float32_within:
  assumes "\<bar>x\<bar> < 2 powi (k + 1)" and "- 126 \<le> k"
  shows "\<bar>float32 x - x\<bar> \<le> 2 powi (k - 24)"
proof -
  define r where "r = binaryExponent 253 127 \<bar>x\<bar>"
  have "r \<le> k"
  proof (rule ccontr)
    assume "\<not> r \<le> k"
    then have large: "k + 1 \<le> r" by simp
    with assms(2) have "r \<noteq> 127 - int 253" by simp
    with binaryExponent_cases[of 253 127 "\<bar>x\<bar>"] have "2 powi r \<le> \<bar>x\<bar>"
      by (simp add: r_def)
    moreover from large have "(2::real) powi (k + 1) \<le> 2 powi r"
      by (intro power_int_increasing) simp_all
    ultimately show False using assms(1) by simp
  qed
  then have "(2::real) powi (r - 24) \<le> 2 powi (k - 24)"
    by (intro power_int_increasing) simp_all
  with float32_near[of x] show ?thesis by (simp add: r_def)
qed

lemma binaryExponent_numeral [simp]:
  "binaryExponent (numeral k) e x =
     (if 2 powi e \<le> x then e else binaryExponent (pred_numeral k) (e - 1) x)"
  by (simp add: numeral_eq_Suc)

lemmas run_defs = Run_text_def Run_item_def Run_softLineBreak_def expand_def
  trailingWhitespaceType_def isText_def isBox_def isLineBreak_def isInlineBoxStart_def
  isInlineBoxEnd_def logicalRight_def hasTrailingWhitespace_def
  hasCollapsedTrailingWhitespace_def hasCollapsibleTrailingWhitespace_def
  moveHorizontally_def shrinkHorizontally_def setExpansion_def setNeedsHyphen_def
  hasTrailingLetterSpacing_def trailingLetterSpacing_def removeTrailingLetterSpacing_def
  visuallyCollapseTrailingWhitespace_def removeTrailingWhitespace_def

lemmas append_defs = append_line_def appendTextContent_def willCollapseCompletely_def needsNewRun_def
  setTrailingTrimmableContent_def appendNonBreakableSpace_def appendInlineBoxStart_def
  appendInlineBoxEnd_def appendNonReplacedInlineLevelBox_def appendReplacedInlineLevelBox_def
  appendLineBreak_def appendWordBreakOpportunity_def contentLogicalRight_def
  contentLogicalWidth_def addFullyTrimmableContent_def addPartiallyTrimmableContent_def
  removePartiallyTrimmableContent_def remove_def reset_def width_def isEmpty_def
  isTrailingRunPartiallyTrimmable_def

lemmas trim_defs = removeCollapsibleContent_def removeTrailingTrimmableContent_def
  visuallyCollapsePreWrapOverflowContent_def isTextAlignRight_def

lemmas expansion_defs = applyRunExpansion_def expansionOpportunities_def
  noExpansionOpportunities_def fixUpLastRun_def runExpansionOpportunities_def
  DefaultExpansion_def

lemmas ex_defs = exStyle_def exStylePreWrap_def exStyleSpaced_def exLayoutBox_def exEnv_def
  exLine_def exSpaces_def exPreservedSpaces_def exWord_def exItem_def exJustifiedLine_def
  exCollected_def onResult_def andThen_def resultOr_def

subsection \<open>Leading whitespace\<close>

text \<open>
  C8. A whitespace text item with collapsing enabled (spaces and tabs not preserved),
  appended to a line whose run list is empty, collapses completely: the line comes back
  as it was, so no run is produced and neither the run list nor the content width
  changes. This holds through \<^verbatim>\<open>appendTextContent\<close> and through the dispatcher
  \<^verbatim>\<open>append\<close>.
\<close>

theorem leading_whitespace_collapses:
  assumes "m_runs l = []" and "isWhitespace inlineTextItem"
    and "\<not> itemPreservesSpacesAndTabs inlineTextItem"
  shows "appendTextContent env inlineTextItem logicalWidth l = Inr l
    \<and> (itemType inlineTextItem = Text \<longrightarrow> append_line env inlineTextItem logicalWidth l = Inr l)"
  using assms by (simp add: appendTextContent_def willCollapseCompletely_def append_line_def)

theorem leading_whitespace_collapses_witness:
  "appendTextContent exEnv (exSpaces 1 exStyle 0 2) 8 (exLine [] 0) = Inr (exLine [] 0)
   \<and> append_line exEnv (exSpaces 1 exStyle 0 2) 8 (exLine [] 0) = Inr (exLine [] 0)
   \<and> m_runs (exLine [] 0) = []"
  using leading_whitespace_collapses [of "exLine [] 0" "exSpaces 1 exStyle 0 2" exEnv 8]
  by (simp add: exLine_def exSpaces_def)

subsection \<open>Atomic boxes and negative margins\<close>

text \<open>
  C2, as stated, fails in the arithmetic of the code. The left edge and the width of the
  run are two float results, each rounded on its own (line 335), so their sum need not
  be \<open>R + W\<close>. In single precision, after a word that ends at \<open>R = 30\<close>, a box with
  a margin-start of -3 and a margin-box width \<open>W\<close> of 11114907 / 2097152 (the float
  after \<^verbatim>\<open>5.3f\<close>) is placed at 27 with a width of 4351591 / 524288, the float nearest
  to \<open>W + 3\<close>. Its right edge is 18507367 / 524288, which is not \<open>R + W\<close> =
  74029467 / 2097152; rounded to a float the right edge is 2313421 / 65536 and
  \<open>R + W\<close> is 9253683 / 262144, the float before it.
\<close>

theorem atomic_box_right_edge_counterexample:
  "marginStart exFloatEnv (itemLayoutBox (exItem Box 9)) = - 3
   \<and> contentLogicalRight (exLine [Run_text (exWord 1 exStyle 0 3) 0 30] 30) = 30
   \<and> m_logicalLeft (last (m_runs (appendNonReplacedInlineLevelBox exFloatEnv (exItem Box 9)
        (11114907 / 2097152) (exLine [Run_text (exWord 1 exStyle 0 3) 0 30] 30)))) = 27
   \<and> m_logicalWidth (last (m_runs (appendNonReplacedInlineLevelBox exFloatEnv (exItem Box 9)
        (11114907 / 2097152) (exLine [Run_text (exWord 1 exStyle 0 3) 0 30] 30))))
       = 4351591 / 524288
   \<and> logicalRight (last (m_runs (appendNonReplacedInlineLevelBox exFloatEnv (exItem Box 9)
        (11114907 / 2097152) (exLine [Run_text (exWord 1 exStyle 0 3) 0 30] 30))))
       = 18507367 / 524288
   \<and> contentLogicalRight (exLine [Run_text (exWord 1 exStyle 0 3) 0 30] 30)
        + 11114907 / 2097152 = 74029467 / 2097152
   \<and> float32 (18507367 / 524288) = 2313421 / 65536
   \<and> float32 (74029467 / 2097152) = 9253683 / 262144"
  by (simp add: exFloatEnv_def exEnv_def exItem_def exLayoutBox_def exLine_def
      appendNonReplacedInlineLevelBox_def contentLogicalRight_def logicalRight_def
      Run_text_def Run_item_def Let_def)
    (simp add: float32_def roundHalfEven_def Let_def)

text \<open>
  C2, amended. An atomic box appended by \<^verbatim>\<open>appendNonReplacedInlineLevelBox\<close> with
  margin-box width \<open>W\<close>, on a line whose content-right before the call is \<open>R\<close>, adds
  one run at the end. With a margin-start \<open>m < 0\<close> the run has logical left \<open>R + m\<close>
  and logical width \<open>W - m\<close>, each rounded to the layout unit on its own; so its right
  edge differs from \<open>R + W\<close> by at most the sum of the two rounding errors, and is
  \<open>R + W\<close> when both results are exact. With \<open>m \<ge> 0\<close> the run is at \<open>R\<close> with
  width \<open>W\<close>. \<^verbatim>\<open>appendReplacedInlineLevelBox\<close> does the same.
\<close>

theorem atomic_box_placement:
  "m_runs (appendNonReplacedInlineLevelBox env inlineItem W l)
     = m_runs l @ [last (m_runs (appendNonReplacedInlineLevelBox env inlineItem W l))]
   \<and> (marginStart env (itemLayoutBox inlineItem) < 0 \<longrightarrow>
        m_logicalLeft (last (m_runs (appendNonReplacedInlineLevelBox env inlineItem W l)))
          = roundUnit env (contentLogicalRight l + marginStart env (itemLayoutBox inlineItem))
      \<and> m_logicalWidth (last (m_runs (appendNonReplacedInlineLevelBox env inlineItem W l)))
          = roundUnit env (W - marginStart env (itemLayoutBox inlineItem))
      \<and> \<bar>logicalRight (last (m_runs (appendNonReplacedInlineLevelBox env inlineItem W l)))
           - (contentLogicalRight l + W)\<bar>
          \<le> \<bar>roundUnit env (contentLogicalRight l + marginStart env (itemLayoutBox inlineItem))
               - (contentLogicalRight l + marginStart env (itemLayoutBox inlineItem))\<bar>
            + \<bar>roundUnit env (W - marginStart env (itemLayoutBox inlineItem))
               - (W - marginStart env (itemLayoutBox inlineItem))\<bar>
      \<and> (roundUnit env (contentLogicalRight l + marginStart env (itemLayoutBox inlineItem))
            = contentLogicalRight l + marginStart env (itemLayoutBox inlineItem)
          \<and> roundUnit env (W - marginStart env (itemLayoutBox inlineItem))
            = W - marginStart env (itemLayoutBox inlineItem) \<longrightarrow>
          logicalRight (last (m_runs (appendNonReplacedInlineLevelBox env inlineItem W l)))
            = contentLogicalRight l + W))
   \<and> (0 \<le> marginStart env (itemLayoutBox inlineItem) \<longrightarrow>
        m_logicalLeft (last (m_runs (appendNonReplacedInlineLevelBox env inlineItem W l)))
          = contentLogicalRight l
      \<and> m_logicalWidth (last (m_runs (appendNonReplacedInlineLevelBox env inlineItem W l)))
          = W)
   \<and> appendReplacedInlineLevelBox env inlineItem W l
       = appendNonReplacedInlineLevelBox env inlineItem W l"
  by (simp add: appendNonReplacedInlineLevelBox_def appendReplacedInlineLevelBox_def
      Let_def contentLogicalRight_def Run_item_def logicalRight_def)
    (intro conjI impI; arith)

text \<open>
  The source's own example in exact arithmetic: an image 100 wide with a margin-left of
  -100 has a margin box 0 wide; after a word that ends at 30 it is placed at -70 and is
  100 wide, and its right edge is at 30. A box without margin, 50 wide, is placed at
  30. In single precision, the left edge of the box of the counterexample is exact and
  its width is rounded by 1 / 2097152, which is how far its right edge is from
  \<open>R + W\<close>.
\<close>

theorem atomic_box_placement_witness:
  "marginStart exEnv (itemLayoutBox (exItem Box 7)) < 0
   \<and> contentLogicalRight (exLine [Run_text (exWord 1 exStyle 0 3) 0 30] 30) = 30
   \<and> m_logicalLeft (last (m_runs (appendNonReplacedInlineLevelBox exEnv (exItem Box 7) 0
        (exLine [Run_text (exWord 1 exStyle 0 3) 0 30] 30)))) = - 70
   \<and> m_logicalWidth (last (m_runs (appendNonReplacedInlineLevelBox exEnv (exItem Box 7) 0
        (exLine [Run_text (exWord 1 exStyle 0 3) 0 30] 30)))) = 100
   \<and> logicalRight (last (m_runs (appendNonReplacedInlineLevelBox exEnv (exItem Box 7) 0
        (exLine [Run_text (exWord 1 exStyle 0 3) 0 30] 30)))) = 30
   \<and> 0 \<le> marginStart exEnv (itemLayoutBox (exItem Box 8))
   \<and> m_logicalLeft (last (m_runs (appendNonReplacedInlineLevelBox exEnv (exItem Box 8) 50
        (exLine [Run_text (exWord 1 exStyle 0 3) 0 30] 30)))) = 30
   \<and> m_logicalWidth (last (m_runs (appendNonReplacedInlineLevelBox exEnv (exItem Box 8) 50
        (exLine [Run_text (exWord 1 exStyle 0 3) 0 30] 30)))) = 50
   \<and> marginStart exFloatEnv (itemLayoutBox (exItem Box 9)) < 0
   \<and> \<bar>float32 (30 - 3) - (30 - 3)\<bar>
      + \<bar>float32 (11114907 / 2097152 + 3) - (11114907 / 2097152 + 3)\<bar> = 1 / 2097152
   \<and> \<bar>logicalRight (last (m_runs (appendNonReplacedInlineLevelBox exFloatEnv (exItem Box 9)
        (11114907 / 2097152) (exLine [Run_text (exWord 1 exStyle 0 3) 0 30] 30))))
      - (30 + 11114907 / 2097152)\<bar> = 1 / 2097152"
  using atomic_box_placement [of exEnv "exItem Box 7" 0
      "exLine [Run_text (exWord 1 exStyle 0 3) 0 30] 30"]
    atomic_box_placement [of exEnv "exItem Box 8" 50
      "exLine [Run_text (exWord 1 exStyle 0 3) 0 30] 30"]
    atomic_box_placement [of exFloatEnv "exItem Box 9" "11114907 / 2097152"
      "exLine [Run_text (exWord 1 exStyle 0 3) 0 30] 30"]
  by (simp add: exFloatEnv_def exEnv_def exItem_def exLayoutBox_def exLine_def
      contentLogicalRight_def logicalRight_def Run_text_def Let_def)
    (simp add: float32_def roundHalfEven_def Let_def)

subsection \<open>Hyphenation\<close>

lemma hyphenateLastTextRun_None:
  "hyphenateLastTextRun w rs = None \<longleftrightarrow> (\<forall>r\<in>set rs. \<not> isText r)"
  by (induction rs) (auto split: option.splits)

lemma hyphenateLastTextRun_Some:
  "\<exists>r\<in>set rs. isText r \<Longrightarrow>
   \<exists>k < length rs. isText (rs ! k) \<and> (\<forall>j < k. \<not> isText (rs ! j))
     \<and> hyphenateLastTextRun w rs = Some (rs[k := setNeedsHyphen w (rs ! k)])"
proof (induction rs)
  case Nil
  then show ?case by simp
next
  case (Cons r rs)
  show ?case
  proof (cases "isText r")
    case True
    then have "isText ((r # rs) ! 0) \<and> (\<forall>j < 0. \<not> isText ((r # rs) ! j))
      \<and> hyphenateLastTextRun w (r # rs) = Some ((r # rs)[0 := setNeedsHyphen w ((r # rs) ! 0)])"
      by simp
    then show ?thesis by blast
  next
    case False
    with Cons.prems have "\<exists>r\<in>set rs. isText r" by auto
    from Cons.IH[OF this] obtain k where k: "k < length rs" "isText (rs ! k)"
      "\<forall>j < k. \<not> isText (rs ! j)"
      "hyphenateLastTextRun w rs = Some (rs[k := setNeedsHyphen w (rs ! k)])"
      by blast
    have "\<forall>j < Suc k. \<not> isText ((r # rs) ! j)"
      using False k(3) by (auto simp: less_Suc_eq_0_disj)
    with k False have "Suc k < length (r # rs) \<and> isText ((r # rs) ! Suc k)
      \<and> (\<forall>j < Suc k. \<not> isText ((r # rs) ! j))
      \<and> hyphenateLastTextRun w (r # rs)
          = Some ((r # rs)[Suc k := setNeedsHyphen w ((r # rs) ! Suc k)])"
      by simp
    then show ?thesis by blast
  qed
qed

text \<open>
  C9. \<^verbatim>\<open>addTrailingHyphen\<close> reaches \<^verbatim>\<open>ASSERT_NOT_REACHED\<close> if and only if the line
  has no text run. On a line with a text run it succeeds: with \<open>i\<close> the index of the last
  text run, run \<open>i\<close> becomes \<open>setNeedsHyphen hyphenLogicalWidth\<close> of itself, every other
  run stays as it was, and the content width grows by exactly \<open>hyphenLogicalWidth\<close>.
\<close>

theorem addTrailingHyphen_last_text_run:
  "(addTrailingHyphen hyphenLogicalWidth l = Inl AssertNotReached
      \<longleftrightarrow> (\<forall>r\<in>set (m_runs l). \<not> isText r))
   \<and> ((\<exists>r\<in>set (m_runs l). isText r) \<longrightarrow>
        (\<exists>i < length (m_runs l). isText (m_runs l ! i)
           \<and> (\<forall>j < length (m_runs l). i < j \<longrightarrow> \<not> isText (m_runs l ! j))
           \<and> addTrailingHyphen hyphenLogicalWidth l =
               Inr (l\<lparr>m_runs := (m_runs l)[i := setNeedsHyphen hyphenLogicalWidth (m_runs l ! i)],
                      m_contentLogicalWidth := m_contentLogicalWidth l + hyphenLogicalWidth\<rparr>)))"
proof (intro conjI impI)
  show "addTrailingHyphen hyphenLogicalWidth l = Inl AssertNotReached
      \<longleftrightarrow> (\<forall>r\<in>set (m_runs l). \<not> isText r)"
    using hyphenateLastTextRun_None[of hyphenLogicalWidth "rev (m_runs l)"]
    by (auto simp: addTrailingHyphen_def split: option.splits)
next
  let ?w = hyphenLogicalWidth
  assume "\<exists>r\<in>set (m_runs l). isText r"
  then have "\<exists>r\<in>set (rev (m_runs l)). isText r" by simp
  from hyphenateLastTextRun_Some[OF this, of ?w] obtain k where k: "k < length (m_runs l)"
    "isText (rev (m_runs l) ! k)" "\<forall>j < k. \<not> isText (rev (m_runs l) ! j)"
    "hyphenateLastTextRun ?w (rev (m_runs l))
       = Some ((rev (m_runs l))[k := setNeedsHyphen ?w (rev (m_runs l) ! k)])"
    by auto
  define n where "n = length (m_runs l)"
  define i where "i = n - 1 - k"
  have i: "i < n" "k = n - 1 - i" using k(1) by (auto simp: i_def n_def)
  have nth: "rev (m_runs l) ! k = m_runs l ! i"
    using k(1) by (simp add: rev_nth i_def n_def)
  have upd: "rev ((rev (m_runs l))[k := x]) = (m_runs l)[i := x]" for x
    using k(1) by (simp add: rev_update i_def n_def)
  have later: "\<forall>j < n. i < j \<longrightarrow> \<not> isText (m_runs l ! j)"
  proof (intro allI impI)
    fix j assume j: "j < n" "i < j"
    then have "n - 1 - j < k" using i by arith
    with k(3) have "\<not> isText (rev (m_runs l) ! (n - 1 - j))" by blast
    moreover have "rev (m_runs l) ! (n - 1 - j) = m_runs l ! j"
      using j by (simp add: rev_nth n_def)
    ultimately show "\<not> isText (m_runs l ! j)" by simp
  qed
  have "addTrailingHyphen ?w l =
      Inr (l\<lparr>m_runs := (m_runs l)[i := setNeedsHyphen ?w (m_runs l ! i)],
             m_contentLogicalWidth := m_contentLogicalWidth l + ?w\<rparr>)"
    by (simp add: addTrailingHyphen_def k(4) upd nth)
  with i(1) k(2) nth later show "\<exists>i < length (m_runs l). isText (m_runs l ! i)
           \<and> (\<forall>j < length (m_runs l). i < j \<longrightarrow> \<not> isText (m_runs l ! j))
           \<and> addTrailingHyphen ?w l =
               Inr (l\<lparr>m_runs := (m_runs l)[i := setNeedsHyphen ?w (m_runs l ! i)],
                      m_contentLogicalWidth := m_contentLogicalWidth l + ?w\<rparr>)"
    unfolding n_def by auto
qed

text \<open>
  A word followed by an atomic box: the hyphen goes to the word, run 0, and the content
  width grows from 80 to 84. On a line with the box alone the assertion is reached.
\<close>

theorem addTrailingHyphen_last_text_run_witness:
  "isText (Run_text (exWord 1 exStyle 0 3) 0 30)
   \<and> addTrailingHyphen 4
        (exLine [Run_text (exWord 1 exStyle 0 3) 0 30, Run_item (exItem Box 8) 30 50] 80)
      = Inr (exLine [setNeedsHyphen 4 (Run_text (exWord 1 exStyle 0 3) 0 30),
                     Run_item (exItem Box 8) 30 50] 84)
   \<and> addTrailingHyphen 4 (exLine [Run_item (exItem Box 8) 0 50] 50) = Inl AssertNotReached"
  using addTrailingHyphen_last_text_run
      [of 4 "exLine [Run_text (exWord 1 exStyle 0 3) 0 30, Run_item (exItem Box 8) 30 50] 80"]
    addTrailingHyphen_last_text_run [of 4 "exLine [Run_item (exItem Box 8) 0 50] 50"]
  by (simp add: addTrailingHyphen_def run_defs ex_defs Let_def)

subsection \<open>Consecutive collapsible whitespace\<close>

lemma trailingWhitespaceType_collapsible:
  "isWhitespace it \<Longrightarrow> \<not> itemPreservesSpacesAndTabs it \<Longrightarrow>
   trailingWhitespaceType it = (if itemLength it = 1 then Collapsible else Collapsed)"
  by (simp add: trailingWhitespaceType_def)

lemma collapses_after_collapsible_text:
  assumes "m_runs l \<noteq> []" "isText (last (m_runs l))"
    "hasCollapsibleTrailingWhitespace (last (m_runs l))"
    "isWhitespace it" "\<not> itemPreservesSpacesAndTabs it"
  shows "willCollapseCompletely l it"
proof -
  from assms(1) obtain rs r where "m_runs l = rs @ [r]"
    by (metis append_butlast_last_id)
  with assms show ?thesis
    by (simp add: willCollapseCompletely_def isBox_def isText_def)
qed

lemma later_whitespace_vanishes:
  assumes "m_runs l \<noteq> []" "isText (last (m_runs l))"
    "hasCollapsibleTrailingWhitespace (last (m_runs l))"
    "\<forall>p\<in>set rest. itemType (fst p) = Text \<and> isWhitespace (fst p)
        \<and> \<not> itemPreservesSpacesAndTabs (fst p)"
  shows "appendItems env rest l = Inr l"
  using assms(4)
proof (induction rest)
  case Nil
  then show ?case by simp
next
  case (Cons p rest)
  obtain it w where p: "p = (it, w)" by (cases p)
  with Cons.prems have it: "itemType it = Text" "isWhitespace it"
    "\<not> itemPreservesSpacesAndTabs it" by auto
  have "append_line env it w l = Inr l"
    using collapses_after_collapsible_text[OF assms(1-3) it(2,3)] it(1)
    by (simp add: append_line_def appendTextContent_def)
  with Cons p show ?case by simp
qed

lemma first_whitespace_new_run:
  assumes "itemType it = Text" "isWhitespace it" "\<not> itemPreservesSpacesAndTabs it"
    "\<not> willCollapseCompletely l it" "needsNewRun l it"
  shows "\<exists>l'. append_line env it w l = Inr l'
    \<and> m_runs l' = m_runs l @ [Run_text it (contentLogicalRight l
         + (if isWordSeparator it then wordSpacing (style (itemLayoutBox it)) else 0)) w]"
  using assms
  by (simp add: append_line_def appendTextContent_def Let_def setTrailingTrimmableContent_def)

lemma first_whitespace_merged:
  assumes "itemType it = Text" "isWhitespace it" "\<not> itemPreservesSpacesAndTabs it"
    "\<not> willCollapseCompletely l it" "\<not> needsNewRun l it"
    "m_textContent (last (m_runs l)) = Some tc"
  shows "\<exists>l'. append_line env it w l = Inr l'
    \<and> m_runs l' = butlast (m_runs l)
         @ [(last (m_runs l))
              \<lparr>m_logicalWidth := m_logicalWidth (last (m_runs l)) + w,
                m_trailingWhitespaceType := trailingWhitespaceType it,
                m_trailingWhitespaceWidth := m_trailingWhitespaceWidth (last (m_runs l)) + w,
                m_textContent := Some (tc\<lparr>textLength := textLength tc + 1\<rparr>)\<rparr>]"
  using assms
  by (auto simp: append_line_def appendTextContent_def Let_def setTrailingTrimmableContent_def
      expand_def trailingWhitespaceType_def)

text \<open>
  C1, as stated, fails in three ways. On an empty line, two whitespace items, "  " and
  " ", with collapsing enabled, leave the line without runs (leading whitespace
  collapses completely), not with one run. After an atomic box, a single space followed
  by "  " gives one text run whose trailing whitespace is \<open>Collapsible\<close>, not
  \<open>Collapsed\<close> (the type of a whitespace item is that of the header's
  \<^verbatim>\<open>trailingWhitespaceType\<close>, as modelled). After the word "Hello" of the same box,
  50 wide, the items "  " (8 wide) and " " are merged into the run of the word (lines
  303 to 306): the line has one run, 58 wide, with a text span of 6, so the width of the
  run is not the width of the first whitespace item only.
\<close>

theorem whitespace_items_on_empty_line_counterexample:
  "appendItems exEnv [(exSpaces 1 exStyle 0 2, 8), (exSpaces 1 exStyle 2 1, 4)] (exLine [] 0)
     = Inr (exLine [] 0)
   \<and> length (m_runs (exLine [] 0)) = 0
   \<and> onResult (map m_trailingWhitespaceType \<circ> m_runs)
        (appendItems exEnv [(exSpaces 1 exStyle 0 1, 4), (exSpaces 1 exStyle 1 2, 8)]
           (exLine [Run_item (exItem Box 8) 0 50] 50))
       = Some [NoTrailingWhitespace, Collapsible]
   \<and> onResult (map m_logicalWidth \<circ> m_runs)
        (appendItems exEnv [(exSpaces 1 exStyle 5 2, 8), (exSpaces 1 exStyle 7 1, 4)]
           (exLine [Run_text (exWord 1 exStyle 0 5) 0 50] 50)) = Some [58]
   \<and> onResult (map m_textContent \<circ> m_runs)
        (appendItems exEnv [(exSpaces 1 exStyle 5 2, 8), (exSpaces 1 exStyle 7 1, 4)]
           (exLine [Run_text (exWord 1 exStyle 0 5) 0 50] 50))
       = Some [Some \<lparr>textStart = 0, textLength = 6\<rparr>]"
  by (simp add: append_defs run_defs ex_defs Let_def)

text \<open>
  C1, amended. Let \<open>N \<ge> 1\<close> whitespace text items with collapsing enabled be appended
  in a row, where the first does not collapse completely (the backward scan meets an
  atomic box, or a text run without collapsible trailing whitespace, before the start of
  the line). Then the appends succeed and all \<open>N\<close> items end up in exactly one run,
  the last run of the line, whose trailing whitespace has the type of the first item:
  \<open>Collapsed\<close> when the first item has more than one character and \<open>Collapsible\<close>
  when it has one. When the first item needs a new run, that run is added to the runs
  of the line: its width and its trailing-whitespace width are the first item's measured
  width and its text span has length 1. When it does not (the last run is a text run of
  the same box without collapsed trailing whitespace, and no word spacing applies), the
  last run of the line is extended: its width and its trailing-whitespace width grow
  by the first item's measured width and its text span by 1, and no run is added. Every
  later item is dropped: the line is the one left by the first append.
\<close>

theorem consecutive_whitespace_one_run:
  assumes "itemType it = Text" "isWhitespace it" "\<not> itemPreservesSpacesAndTabs it"
    and "\<not> willCollapseCompletely l it"
    and "\<not> needsNewRun l it \<longrightarrow> m_textContent (last (m_runs l)) \<noteq> None"
    and "\<forall>p\<in>set rest. itemType (fst p) = Text \<and> isWhitespace (fst p)
        \<and> \<not> itemPreservesSpacesAndTabs (fst p)"
  shows "\<exists>l' r. appendItems env ((it, w) # rest) l = Inr l'
     \<and> append_line env it w l = Inr l'
     \<and> m_runs l' \<noteq> [] \<and> r = last (m_runs l')
     \<and> isText r
     \<and> m_trailingWhitespaceType r = trailingWhitespaceType it
     \<and> m_trailingWhitespaceType r = (if itemLength it = 1 then Collapsible else Collapsed)
     \<and> (needsNewRun l it \<longrightarrow>
          m_runs l' = m_runs l @ [r]
        \<and> m_logicalWidth r = w
        \<and> m_trailingWhitespaceWidth r = w
        \<and> m_textContent r = Some \<lparr>textStart = itemStart it, textLength = 1\<rparr>)
     \<and> (\<not> needsNewRun l it \<longrightarrow>
          m_runs l \<noteq> [] \<and> m_runs l' = butlast (m_runs l) @ [r]
        \<and> m_layoutBox r = m_layoutBox (last (m_runs l))
        \<and> m_logicalLeft r = m_logicalLeft (last (m_runs l))
        \<and> m_logicalWidth r = m_logicalWidth (last (m_runs l)) + w
        \<and> m_trailingWhitespaceWidth r = m_trailingWhitespaceWidth (last (m_runs l)) + w
        \<and> (\<exists>tc. m_textContent (last (m_runs l)) = Some tc
              \<and> m_textContent r = Some (tc\<lparr>textLength := textLength tc + 1\<rparr>)))"
proof -
  have tw: "trailingWhitespaceType it = (if itemLength it = 1 then Collapsible else Collapsed)"
    using assms(2,3) by (rule trailingWhitespaceType_collapsible)
  show ?thesis
  proof (cases "needsNewRun l it")
    case True
    let ?left = "contentLogicalRight l
                + (if isWordSeparator it then wordSpacing (style (itemLayoutBox it)) else 0)"
    let ?r = "Run_text it ?left w"
    from first_whitespace_new_run[OF assms(1-4) True, of env w]
    obtain l' where l': "append_line env it w l = Inr l'" "m_runs l' = m_runs l @ [?r]"
      by blast
    have r: "isText ?r" "m_logicalWidth ?r = w" "m_trailingWhitespaceWidth ?r = w"
      "m_textContent ?r = Some \<lparr>textStart = itemStart it, textLength = 1\<rparr>"
      "m_trailingWhitespaceType ?r = trailingWhitespaceType it"
      "hasCollapsibleTrailingWhitespace ?r"
      by (simp_all add: Run_text_def Let_def tw isText_def hasCollapsibleTrailingWhitespace_def
          hasCollapsedTrailingWhitespace_def)
    from l'(2) have last: "m_runs l' \<noteq> []" "?r = last (m_runs l')" by simp_all
    have "appendItems env rest l' = Inr l'"
      using later_whitespace_vanishes[of l' rest env] l'(2) r(1,6) assms(6) by simp
    with l'(1) have all: "appendItems env ((it, w) # rest) l = Inr l'" by simp
    from all l' last r(1-5) tw True show ?thesis by (intro exI[of _ l'] exI[of _ ?r]) simp
  next
    case False
    with assms(5) obtain tc where tc: "m_textContent (last (m_runs l)) = Some tc" by auto
    let ?last = "last (m_runs l)"
    let ?r = "?last\<lparr>m_logicalWidth := m_logicalWidth ?last + w,
                m_trailingWhitespaceType := trailingWhitespaceType it,
                m_trailingWhitespaceWidth := m_trailingWhitespaceWidth ?last + w,
                m_textContent := Some (tc\<lparr>textLength := textLength tc + 1\<rparr>)\<rparr>"
    from first_whitespace_merged[OF assms(1-4) False tc, of env w]
    obtain l' where l': "append_line env it w l = Inr l'"
      "m_runs l' = butlast (m_runs l) @ [?r]"
      by blast
    from False have old: "m_runs l \<noteq> []" "isText ?last"
      by (auto simp: needsNewRun_def split: if_splits)
    have r: "isText ?r" "hasCollapsibleTrailingWhitespace ?r"
      "m_trailingWhitespaceType ?r = trailingWhitespaceType it"
      "m_layoutBox ?r = m_layoutBox ?last" "m_logicalLeft ?r = m_logicalLeft ?last"
      "m_logicalWidth ?r = m_logicalWidth ?last + w"
      "m_trailingWhitespaceWidth ?r = m_trailingWhitespaceWidth ?last + w"
      "m_textContent ?r = Some (tc\<lparr>textLength := textLength tc + 1\<rparr>)"
      using old(2)
      by (simp_all add: tw isText_def hasCollapsibleTrailingWhitespace_def
          hasCollapsedTrailingWhitespace_def)
    from l'(2) have last: "m_runs l' \<noteq> []" "?r = last (m_runs l')" by simp_all
    have "appendItems env rest l' = Inr l'"
      using later_whitespace_vanishes[of l' rest env] l'(2) r(1,2) assms(6) by simp
    with l'(1) have all: "appendItems env ((it, w) # rest) l = Inr l'" by simp
    from all l' last r tw tc old(1) False show ?thesis
      by (intro exI[of _ l'] exI[of _ ?r]) simp
  qed
qed

text \<open>
  The spec's scenario, after an atomic box that ends at 50: "  " (8 wide) then " "
  (4 wide) give the box and one text run, 8 wide, of text length 1, \<open>Collapsed\<close>. After
  the word "Hello" of the same box the two items extend the run of the word, from 50 to
  58 and from 5 to 6 characters, \<open>Collapsed\<close>, 8 of the width being trailing
  whitespace.
\<close>

theorem consecutive_whitespace_one_run_witness:
  "\<not> willCollapseCompletely (exLine [Run_item (exItem Box 8) 0 50] 50) (exSpaces 1 exStyle 0 2)
   \<and> needsNewRun (exLine [Run_item (exItem Box 8) 0 50] 50) (exSpaces 1 exStyle 0 2)
   \<and> onResult (length \<circ> m_runs)
        (appendItems exEnv [(exSpaces 1 exStyle 0 2, 8), (exSpaces 1 exStyle 2 1, 4)]
           (exLine [Run_item (exItem Box 8) 0 50] 50)) = Some 2
   \<and> onResult (m_logicalWidth \<circ> last \<circ> m_runs)
        (appendItems exEnv [(exSpaces 1 exStyle 0 2, 8), (exSpaces 1 exStyle 2 1, 4)]
           (exLine [Run_item (exItem Box 8) 0 50] 50)) = Some 8
   \<and> onResult (m_textContent \<circ> last \<circ> m_runs)
        (appendItems exEnv [(exSpaces 1 exStyle 0 2, 8), (exSpaces 1 exStyle 2 1, 4)]
           (exLine [Run_item (exItem Box 8) 0 50] 50))
       = Some (Some \<lparr>textStart = 0, textLength = 1\<rparr>)
   \<and> onResult (m_trailingWhitespaceType \<circ> last \<circ> m_runs)
        (appendItems exEnv [(exSpaces 1 exStyle 0 2, 8), (exSpaces 1 exStyle 2 1, 4)]
           (exLine [Run_item (exItem Box 8) 0 50] 50)) = Some Collapsed
   \<and> \<not> willCollapseCompletely (exLine [Run_text (exWord 1 exStyle 0 5) 0 50] 50)
         (exSpaces 1 exStyle 5 2)
   \<and> \<not> needsNewRun (exLine [Run_text (exWord 1 exStyle 0 5) 0 50] 50)
         (exSpaces 1 exStyle 5 2)
   \<and> onResult (length \<circ> m_runs)
        (appendItems exEnv [(exSpaces 1 exStyle 5 2, 8), (exSpaces 1 exStyle 7 1, 4)]
           (exLine [Run_text (exWord 1 exStyle 0 5) 0 50] 50)) = Some 1
   \<and> onResult (m_logicalWidth \<circ> last \<circ> m_runs)
        (appendItems exEnv [(exSpaces 1 exStyle 5 2, 8), (exSpaces 1 exStyle 7 1, 4)]
           (exLine [Run_text (exWord 1 exStyle 0 5) 0 50] 50)) = Some 58
   \<and> onResult (m_trailingWhitespaceWidth \<circ> last \<circ> m_runs)
        (appendItems exEnv [(exSpaces 1 exStyle 5 2, 8), (exSpaces 1 exStyle 7 1, 4)]
           (exLine [Run_text (exWord 1 exStyle 0 5) 0 50] 50)) = Some 8
   \<and> onResult (m_textContent \<circ> last \<circ> m_runs)
        (appendItems exEnv [(exSpaces 1 exStyle 5 2, 8), (exSpaces 1 exStyle 7 1, 4)]
           (exLine [Run_text (exWord 1 exStyle 0 5) 0 50] 50))
       = Some (Some \<lparr>textStart = 0, textLength = 6\<rparr>)
   \<and> onResult (m_trailingWhitespaceType \<circ> last \<circ> m_runs)
        (appendItems exEnv [(exSpaces 1 exStyle 5 2, 8), (exSpaces 1 exStyle 7 1, 4)]
           (exLine [Run_text (exWord 1 exStyle 0 5) 0 50] 50)) = Some Collapsed"
proof -
  let ?l = "exLine [Run_item (exItem Box 8) 0 50] 50"
  let ?it = "exSpaces 1 exStyle 0 2"
  have h: "itemType ?it = Text" "isWhitespace ?it" "\<not> itemPreservesSpacesAndTabs ?it"
    "\<not> willCollapseCompletely ?l ?it"
    "\<not> needsNewRun ?l ?it \<longrightarrow> m_textContent (last (m_runs ?l)) \<noteq> None"
    "\<forall>p\<in>set [(exSpaces 1 exStyle 2 1, 4::real)]. itemType (fst p) = Text
        \<and> isWhitespace (fst p) \<and> \<not> itemPreservesSpacesAndTabs (fst p)"
    and n: "needsNewRun ?l ?it"
    by (simp_all add: willCollapseCompletely_def needsNewRun_def run_defs ex_defs)
  from consecutive_whitespace_one_run[OF h, of exEnv 8] n obtain l' r where
    "appendItems exEnv [(?it, 8), (exSpaces 1 exStyle 2 1, 4)] ?l = Inr l'"
    "r = last (m_runs l')"
    "m_runs l' = m_runs ?l @ [r]" "m_logicalWidth r = 8"
    "m_textContent r = Some \<lparr>textStart = itemStart ?it, textLength = 1\<rparr>"
    "m_trailingWhitespaceType r = (if itemLength ?it = 1 then Collapsible else Collapsed)"
    by blast
  with h(4) n have new: "\<not> willCollapseCompletely ?l ?it \<and> needsNewRun ?l ?it
   \<and> onResult (length \<circ> m_runs)
        (appendItems exEnv [(?it, 8), (exSpaces 1 exStyle 2 1, 4)] ?l) = Some 2
   \<and> onResult (m_logicalWidth \<circ> last \<circ> m_runs)
        (appendItems exEnv [(?it, 8), (exSpaces 1 exStyle 2 1, 4)] ?l) = Some 8
   \<and> onResult (m_textContent \<circ> last \<circ> m_runs)
        (appendItems exEnv [(?it, 8), (exSpaces 1 exStyle 2 1, 4)] ?l)
       = Some (Some \<lparr>textStart = 0, textLength = 1\<rparr>)
   \<and> onResult (m_trailingWhitespaceType \<circ> last \<circ> m_runs)
        (appendItems exEnv [(?it, 8), (exSpaces 1 exStyle 2 1, 4)] ?l) = Some Collapsed"
    by (simp add: onResult_def exLine_def exSpaces_def)
  let ?m = "exLine [Run_text (exWord 1 exStyle 0 5) 0 50] 50"
  let ?jt = "exSpaces 1 exStyle 5 2"
  have g: "itemType ?jt = Text" "isWhitespace ?jt" "\<not> itemPreservesSpacesAndTabs ?jt"
    "\<not> willCollapseCompletely ?m ?jt"
    "\<not> needsNewRun ?m ?jt \<longrightarrow> m_textContent (last (m_runs ?m)) \<noteq> None"
    "\<forall>p\<in>set [(exSpaces 1 exStyle 7 1, 4::real)]. itemType (fst p) = Text
        \<and> isWhitespace (fst p) \<and> \<not> itemPreservesSpacesAndTabs (fst p)"
    and m: "\<not> needsNewRun ?m ?jt"
    and old: "m_runs ?m = [Run_text (exWord 1 exStyle 0 5) 0 50]"
      "m_logicalWidth (Run_text (exWord 1 exStyle 0 5) 0 50) = 50"
      "m_trailingWhitespaceWidth (Run_text (exWord 1 exStyle 0 5) 0 50) = 0"
      "m_textContent (Run_text (exWord 1 exStyle 0 5) 0 50)
         = Some \<lparr>textStart = 0, textLength = 5\<rparr>"
    by (simp_all add: willCollapseCompletely_def needsNewRun_def run_defs ex_defs)
  from consecutive_whitespace_one_run[OF g, of exEnv 8] m obtain l' r tc where
    "appendItems exEnv [(?jt, 8), (exSpaces 1 exStyle 7 1, 4)] ?m = Inr l'"
    "r = last (m_runs l')"
    "m_runs l' = butlast (m_runs ?m) @ [r]"
    "m_logicalWidth r = m_logicalWidth (last (m_runs ?m)) + 8"
    "m_trailingWhitespaceWidth r = m_trailingWhitespaceWidth (last (m_runs ?m)) + 8"
    "m_textContent (last (m_runs ?m)) = Some tc"
    "m_textContent r = Some (tc\<lparr>textLength := textLength tc + 1\<rparr>)"
    "m_trailingWhitespaceType r = (if itemLength ?jt = 1 then Collapsible else Collapsed)"
    by blast
  with g(4) m old have merged: "\<not> willCollapseCompletely ?m ?jt \<and> \<not> needsNewRun ?m ?jt
   \<and> onResult (length \<circ> m_runs)
        (appendItems exEnv [(?jt, 8), (exSpaces 1 exStyle 7 1, 4)] ?m) = Some 1
   \<and> onResult (m_logicalWidth \<circ> last \<circ> m_runs)
        (appendItems exEnv [(?jt, 8), (exSpaces 1 exStyle 7 1, 4)] ?m) = Some 58
   \<and> onResult (m_trailingWhitespaceWidth \<circ> last \<circ> m_runs)
        (appendItems exEnv [(?jt, 8), (exSpaces 1 exStyle 7 1, 4)] ?m) = Some 8
   \<and> onResult (m_textContent \<circ> last \<circ> m_runs)
        (appendItems exEnv [(?jt, 8), (exSpaces 1 exStyle 7 1, 4)] ?m)
       = Some (Some \<lparr>textStart = 0, textLength = 6\<rparr>)
   \<and> onResult (m_trailingWhitespaceType \<circ> last \<circ> m_runs)
        (appendItems exEnv [(?jt, 8), (exSpaces 1 exStyle 7 1, 4)] ?m) = Some Collapsed"
    by (auto simp: onResult_def exSpaces_def)
  from new merged show ?thesis by blast
qed

subsection \<open>Removing collapsible content twice\<close>

lemma remove_resets: "remove t runs = Inr (w, t', runs') \<Longrightarrow> t' = reset"
  by (auto simp: remove_def Let_def split: option.splits if_splits sum.splits)

lemma removeTrailingTrimmableContent_idempotent:
  assumes "removeTrailingTrimmableContent env l = Inr l1"
  shows "removeTrailingTrimmableContent env l1 = Inr l1"
proof (cases "isEmpty (m_trimmableTrailingContent l) \<or> m_runs l = []")
  case True
  with assms have "l1 = l" by (simp add: removeTrailingTrimmableContent_def)
  with True show ?thesis by (simp add: removeTrailingTrimmableContent_def)
next
  case False
  with assms have "m_trimmableTrailingContent l1 = reset"
    by (auto simp: removeTrailingTrimmableContent_def split: if_splits sum.splits
        dest: remove_resets)
  then show ?thesis
    by (simp add: removeTrailingTrimmableContent_def isEmpty_def reset_def)
qed







lemma exHelloLine_eq:
  "exHelloLine =
     \<lparr>m_runs = [(Run_text (exWord 1 exStyle 0 5) 0 50)
                  \<lparr>m_logicalWidth := 54, m_trailingWhitespaceType := Collapsible,
                    m_trailingWhitespaceWidth := 4,
                    m_textContent := Some \<lparr>textStart = 0, textLength = 6\<rparr>\<rparr>],
      m_contentLogicalWidth = 54, m_nonSpanningInlineLevelBoxCount = 0,
      m_trailingSoftHyphenWidth = None,
      m_trimmableTrailingContent =
        \<lparr>m_firstTrimmableRunIndex = Some 0, m_hasFullyTrimmableContent = True,
         m_fullyTrimmableWidth = 4, m_partiallyTrimmableWidth = 0\<rparr>\<rparr>"
  by (simp add: exHelloLine_def append_defs run_defs ex_defs Let_def)

lemma exHelloTrimmed_eq:
  "exHelloTrimmed = exLine [Run_text (exWord 1 exStyle 0 5) 0 50] 50"
  by (simp add: exHelloTrimmed_def exHelloLine_eq append_defs run_defs ex_defs trim_defs
      Let_def)


subsection \<open>Content width under append\<close>




text \<open>
  Line 324 adds the margin-box width of an atomic box to the content width as it is,
  where the other appenders bound their update from below (lines 227 to 229, 302, 305
  and 306): an atomic box with a margin-box width of -50 appended to a line of content
  width 30 leaves -20.
\<close>

lemma atomic_box_negative_margin_box_width:
  "onResult m_contentLogicalWidth
     (append_line exEnv (exItem Box 7) (- 50) (exLine [Run_text (exWord 1 exStyle 0 3) 0 30] 30))
       = Some (- 20)"
  by (simp add: append_defs run_defs ex_defs Let_def)




subsection \<open>Letter spacing and fully trimmable whitespace in the tracker\<close>

lemma setTrailingTrimmableContent_tracker:
  "m_partiallyTrimmableWidth (m_trimmableTrailingContent (setTrailingTrimmableContent env it old l))
      \<noteq> m_partiallyTrimmableWidth (m_trimmableTrailingContent l)
   \<Longrightarrow> \<not> m_hasFullyTrimmableContent
         (m_trimmableTrailingContent (setTrailingTrimmableContent env it old l))"
  by (auto simp: setTrailingTrimmableContent_def Let_def addFullyTrimmableContent_def
      addPartiallyTrimmableContent_def reset_def split: if_splits)

lemma appendTextContent_tracker:
  assumes "appendTextContent env it w l = Inr l'"
    and "m_partiallyTrimmableWidth (m_trimmableTrailingContent l')
       \<noteq> m_partiallyTrimmableWidth (m_trimmableTrailingContent l)"
  shows "\<not> m_hasFullyTrimmableContent (m_trimmableTrailingContent l')"
proof (cases "willCollapseCompletely l it")
  case True
  with assms show ?thesis by (simp add: appendTextContent_def)
next
  case False
  show ?thesis
  proof (cases "needsNewRun l it")
    case True
    with False assms(1) obtain l0 old where
      "l' = setTrailingTrimmableContent env it old l0"
      "m_trimmableTrailingContent l0 = m_trimmableTrailingContent l"
      by (auto simp: appendTextContent_def Let_def)
    with assms(2) setTrailingTrimmableContent_tracker[of env it old l0] show ?thesis by simp
  next
    case nn: False
    with False assms(1) obtain l0 old where
      "l' = setTrailingTrimmableContent env it old l0"
      "m_trimmableTrailingContent l0 = m_trimmableTrailingContent l"
      by (auto simp: appendTextContent_def Let_def split: sum.splits)
    with assms(2) setTrailingTrimmableContent_tracker[of env it old l0] show ?thesis by simp
  qed
qed

lemma appendNonBreakableSpace_tracker:
  "m_trimmableTrailingContent (appendNonBreakableSpace it x w l) = m_trimmableTrailingContent l"
  by (simp add: appendNonBreakableSpace_def)

lemma appendInlineBoxEnd_tracker:
  assumes "appendInlineBoxEnd it w l = Inr l'"
  shows "m_trimmableTrailingContent l' = m_trimmableTrailingContent l
    \<or> m_trimmableTrailingContent l' = reset"
proof (cases "isTrailingRunPartiallyTrimmable (m_trimmableTrailingContent l)")
  case False
  with assms show ?thesis
    by (auto simp: appendInlineBoxEnd_def appendNonBreakableSpace_tracker)
next
  case True
  with assms obtain x t runs where
    "remove (m_trimmableTrailingContent l) (m_runs l) = Inr (x, t, runs)"
    "m_trimmableTrailingContent l' = t"
    by (auto simp: appendInlineBoxEnd_def removePartiallyTrimmableContent_def Let_def
        appendNonBreakableSpace_tracker split: sum.splits)
  then show ?thesis using remove_resets by blast
qed

text \<open>
  C7, as stated, fails: a word with a letter spacing of 2 records 2 as partially
  trimmable, and the collapsible space appended next in the same box records the fully
  trimmable content on top of it, so the tracker holds a non-zero partially trimmable
  width and the fully-trimmable flag at once.
\<close>

theorem letter_spacing_then_whitespace_counterexample:
  "onResult m_trimmableTrailingContent
     (appendItems exEnv [(exWord 3 exStyleSpaced 0 3, 30), (exSpaces 3 exStyleSpaced 3 1, 4)]
        (exLine [] 0))
   = Some \<lparr>m_firstTrimmableRunIndex = Some 0, m_hasFullyTrimmableContent = True,
            m_fullyTrimmableWidth = 4, m_partiallyTrimmableWidth = 2\<rparr>"
  by (simp add: append_defs run_defs ex_defs Let_def)

text \<open>
  C7, amended. Within an accumulation cycle no letter-spacing trimming is recorded
  once fully trimmable whitespace is recorded, and this is by construction: whenever an
  append changes the partially trimmable width of the tracker, the tracker it leaves has
  the fully-trimmable flag clear (the letter spacing is recorded on a tracker that was
  just reset). The two can be set together only in the other order, fully trimmable
  whitespace after letter-spaced text.
\<close>

theorem letter_spacing_recorded_on_reset_tracker:
  assumes "append_line env inlineItem logicalWidth l = Inr l'"
    and "m_partiallyTrimmableWidth (m_trimmableTrailingContent l')
       \<noteq> m_partiallyTrimmableWidth (m_trimmableTrailingContent l)"
  shows "\<not> m_hasFullyTrimmableContent (m_trimmableTrailingContent l')"
proof (cases "itemType inlineItem")
  case Text
  with assms show ?thesis
    by (simp add: append_line_def appendTextContent_tracker)
next
  case HardLineBreak
  with assms show ?thesis by (auto simp: append_line_def appendLineBreak_def Let_def)
next
  case SoftLineBreak
  with assms show ?thesis by (auto simp: append_line_def appendLineBreak_def Let_def)
next
  case WordBreakOpportunity
  with assms show ?thesis by (auto simp: append_line_def appendWordBreakOpportunity_def)
next
  case Box
  with assms show ?thesis
    by (auto simp: append_line_def appendReplacedInlineLevelBox_def
        appendNonReplacedInlineLevelBox_def Let_def reset_def split: if_splits)
next
  case InlineBoxStart
  with assms show ?thesis
    by (auto simp: append_line_def appendInlineBoxStart_def Let_def appendNonBreakableSpace_def)
next
  case InlineBoxEnd
  with assms(1) have "appendInlineBoxEnd inlineItem logicalWidth l = Inr l'"
    by (simp add: append_line_def)
  from appendInlineBoxEnd_tracker[OF this] assms(2) show ?thesis
    by (auto simp: reset_def)
qed

text \<open>
  A letter-spaced word appended after "Hello ", whose space is tracked as fully
  trimmable: the tracker is reset and records the letter spacing alone.
\<close>

theorem letter_spacing_recorded_on_reset_tracker_witness:
  "m_hasFullyTrimmableContent (m_trimmableTrailingContent exHelloLine)
   \<and> m_partiallyTrimmableWidth (m_trimmableTrailingContent exHelloLine) = 0
   \<and> onResult m_trimmableTrailingContent
        (append_line exEnv (exWord 3 exStyleSpaced 0 3) 30 exHelloLine)
      = Some \<lparr>m_firstTrimmableRunIndex = Some 1, m_hasFullyTrimmableContent = False,
               m_fullyTrimmableWidth = 0, m_partiallyTrimmableWidth = 2\<rparr>"
proof -
  let ?l' = "resultOr (exLine [] 0) (append_line exEnv (exWord 3 exStyleSpaced 0 3) 30 exHelloLine)"
  have a: "append_line exEnv (exWord 3 exStyleSpaced 0 3) 30 exHelloLine = Inr ?l'"
    by (simp add: exHelloLine_eq append_defs run_defs ex_defs Let_def)
  have t: "m_trimmableTrailingContent ?l'
      = \<lparr>m_firstTrimmableRunIndex = Some 1, m_hasFullyTrimmableContent = False,
         m_fullyTrimmableWidth = 0, m_partiallyTrimmableWidth = 2\<rparr>"
    by (simp add: exHelloLine_eq append_defs run_defs ex_defs Let_def)
  have b: "m_hasFullyTrimmableContent (m_trimmableTrailingContent exHelloLine)"
    "m_partiallyTrimmableWidth (m_trimmableTrailingContent exHelloLine) = 0"
    by (simp_all add: exHelloLine_eq)
  have c: "m_partiallyTrimmableWidth (m_trimmableTrailingContent ?l')
       \<noteq> m_partiallyTrimmableWidth (m_trimmableTrailingContent exHelloLine)"
    by (simp add: t b)
  have o: "onResult m_trimmableTrailingContent
        (append_line exEnv (exWord 3 exStyleSpaced 0 3) 30 exHelloLine)
      = Some (m_trimmableTrailingContent ?l')"
    by (subst a) (simp add: onResult_def)
  from letter_spacing_recorded_on_reset_tracker[OF a c] o t b show ?thesis
    by simp
qed

subsection \<open>Justification\<close>

lemma runExpansionOpportunities_total:
  "isText run \<longrightarrow> m_textContent run \<noteq> None \<Longrightarrow>
   \<exists>b n a. runExpansionOpportunities env run isAfter = Inr (b, n, a)"
  by (auto simp: runExpansionOpportunities_def Let_def split: option.splits prod.splits)

lemma collect_total:
  "\<forall>r\<in>set runs. isText r \<longrightarrow> m_textContent r \<noteq> None \<Longrightarrow>
   \<exists>c. collectExpansionOpportunities env runs s = Inr c"
proof (induction runs arbitrary: s)
  case Nil
  then show ?case by simp
next
  case (Cons r runs)
  then have "isText r \<longrightarrow> m_textContent r \<noteq> None" by simp
  from runExpansionOpportunities_total[OF this, of env "runIsAfterExpansion s"]
  obtain b n a where "runExpansionOpportunities env r (runIsAfterExpansion s) = Inr (b, n, a)"
    by blast
  with Cons show ?case by simp
qed

lemma collect_append:
  "collectExpansionOpportunities env (xs @ ys) s =
     (case collectExpansionOpportunities env xs s of
        Inl e \<Rightarrow> Inl e
      | Inr s1 \<Rightarrow> collectExpansionOpportunities env ys s1)"
  by (induction xs arbitrary: s) (auto split: sum.splits)

lemma collect_snoc:
  assumes "collectExpansionOpportunities env (xs @ [r]) s = Inr c"
  shows "\<exists>s1 b n a. collectExpansionOpportunities env xs s = Inr s1
     \<and> runExpansionOpportunities env r (runIsAfterExpansion s1) = Inr (b, n, a)
     \<and> c = s1\<lparr>runsExpansionBehaviors := runsExpansionBehaviors s1 @ [b],
               runsExpansionOpportunities := runsExpansionOpportunities s1 @ [n],
               lineExpansionOpportunities := lineExpansionOpportunities s1 + n,
               lastRunIndexWithContent :=
                 (if isText r \<or> isBox r then Some (length (runsExpansionOpportunities s1))
                  else lastRunIndexWithContent s1),
               runIsAfterExpansion := a\<rparr>"
  using assms by (auto simp: collect_append split: sum.splits)

lemma runExpansionOpportunities_no_content:
  "\<not> isText r \<Longrightarrow> \<not> isBox r \<Longrightarrow>
   runExpansionOpportunities env r a = Inr (DefaultExpansion, 0, a)"
  by (simp add: runExpansionOpportunities_def)

text \<open>What the first loop has established when it ends.\<close>

lemma collect_invariant:
  assumes "collectExpansionOpportunities env runs noExpansionOpportunities = Inr c"
  shows "length (runsExpansionOpportunities c) = length runs
    \<and> length (runsExpansionBehaviors c) = length runs
    \<and> lineExpansionOpportunities c = sum_list (runsExpansionOpportunities c)
    \<and> (case lastRunIndexWithContent c of
          None \<Rightarrow> True
        | Some i \<Rightarrow> i < length runs \<and> (isText (runs ! i) \<or> isBox (runs ! i))
            \<and> (\<forall>j < length runs. i < j \<longrightarrow> \<not> isText (runs ! j) \<and> \<not> isBox (runs ! j))
            \<and> (\<exists>a0. runExpansionOpportunities env (runs ! i) a0
                  = Inr (runsExpansionBehaviors c ! i, runsExpansionOpportunities c ! i,
                         runIsAfterExpansion c)))"
  using assms
proof (induction runs arbitrary: c rule: rev_induct)
  case Nil
  then show ?case by (auto simp: noExpansionOpportunities_def)
next
  case (snoc r xs)
  from collect_snoc[OF snoc.prems] obtain s1 b n a where
    s1: "collectExpansionOpportunities env xs noExpansionOpportunities = Inr s1"
    and step: "runExpansionOpportunities env r (runIsAfterExpansion s1) = Inr (b, n, a)"
    and c: "c = s1\<lparr>runsExpansionBehaviors := runsExpansionBehaviors s1 @ [b],
               runsExpansionOpportunities := runsExpansionOpportunities s1 @ [n],
               lineExpansionOpportunities := lineExpansionOpportunities s1 + n,
               lastRunIndexWithContent :=
                 (if isText r \<or> isBox r then Some (length (runsExpansionOpportunities s1))
                  else lastRunIndexWithContent s1),
               runIsAfterExpansion := a\<rparr>"
    by blast
  note IH = snoc.IH[OF s1]
  from IH have len: "length (runsExpansionOpportunities s1) = length xs"
    "length (runsExpansionBehaviors s1) = length xs"
    "lineExpansionOpportunities s1 = sum_list (runsExpansionOpportunities s1)" by auto
  have basics: "length (runsExpansionOpportunities c) = length (xs @ [r])"
    "length (runsExpansionBehaviors c) = length (xs @ [r])"
    "lineExpansionOpportunities c = sum_list (runsExpansionOpportunities c)"
    using len by (simp_all add: c)
  show ?case
  proof (cases "isText r \<or> isBox r")
    case True
    then have "lastRunIndexWithContent c = Some (length xs)" by (simp add: c len)
    moreover have "runExpansionOpportunities env ((xs @ [r]) ! length xs) (runIsAfterExpansion s1)
        = Inr (runsExpansionBehaviors c ! length xs, runsExpansionOpportunities c ! length xs,
               runIsAfterExpansion c)"
      using step len by (simp add: c nth_append)
    ultimately show ?thesis using basics True by (auto simp: nth_append)
  next
    case False
    then have same: "lastRunIndexWithContent c = lastRunIndexWithContent s1" by (simp add: c)
    from False step have bna: "b = DefaultExpansion" "n = 0" "a = runIsAfterExpansion s1"
      by (simp_all add: runExpansionOpportunities_no_content)
    show ?thesis
    proof (cases "lastRunIndexWithContent s1")
      case None
      with same basics show ?thesis by simp
    next
      case (Some i)
      with IH have i: "i < length xs" "isText (xs ! i) \<or> isBox (xs ! i)"
        "\<forall>j < length xs. i < j \<longrightarrow> \<not> isText (xs ! j) \<and> \<not> isBox (xs ! j)"
        and "\<exists>a0. runExpansionOpportunities env (xs ! i) a0
                  = Inr (runsExpansionBehaviors s1 ! i, runsExpansionOpportunities s1 ! i,
                         runIsAfterExpansion s1)"
        by auto
      then obtain a0 where a0: "runExpansionOpportunities env (xs ! i) a0
                  = Inr (runsExpansionBehaviors s1 ! i, runsExpansionOpportunities s1 ! i,
                         runIsAfterExpansion s1)" by blast
      have later: "\<forall>j < length (xs @ [r]). i < j \<longrightarrow>
          \<not> isText ((xs @ [r]) ! j) \<and> \<not> isBox ((xs @ [r]) ! j)"
        using i(3) False by (auto simp: nth_append less_Suc_eq)
      have "runExpansionOpportunities env ((xs @ [r]) ! i) a0
                  = Inr (runsExpansionBehaviors c ! i, runsExpansionOpportunities c ! i,
                         runIsAfterExpansion c)"
        using a0 i(1) len bna by (simp add: c nth_append)
      with i(1,2) later same Some basics show ?thesis
        by (auto simp: nth_append)
    qed
  qed
qed


lemma fixUpLastRun_invariant:
  assumes "length (runsExpansionOpportunities c) = n"
    and "length (runsExpansionBehaviors c) = n"
    and "lineExpansionOpportunities c = sum_list (runsExpansionOpportunities c)"
    and "\<forall>i. lastRunIndexWithContent c = Some i \<longrightarrow> i < n"
  shows "length (runsExpansionOpportunities (fixUpLastRun c)) = n
    \<and> length (runsExpansionBehaviors (fixUpLastRun c)) = n
    \<and> lineExpansionOpportunities (fixUpLastRun c)
        = sum_list (runsExpansionOpportunities (fixUpLastRun c))"
proof (cases "lastRunIndexWithContent c")
  case None
  with assms show ?thesis by (simp add: fixUpLastRun_def)
next
  case (Some i)
  with assms(4) have i: "i < n" by simp
  have "sum_list ((runsExpansionOpportunities c)[i := runsExpansionOpportunities c ! i - 1])
      = sum_list (runsExpansionOpportunities c) - 1"
    if "runsExpansionOpportunities c ! i \<noteq> 0"
    using that i assms(1) by (simp add: sum_list_update)
  with Some assms(1-3) show ?thesis
    by (simp add: fixUpLastRun_def Let_def)
qed

lemma distributeExpansion_result:
  assumes "length runs = length ns" and "length ns = length bs"
  shows "length (fst (distributeExpansion fl d runs ns bs acc)) = length runs
    \<and> (\<forall>i < length runs.
          m_expansion (fst (distributeExpansion fl d runs ns bs acc) ! i)
            = \<lparr>behavior = bs ! i, horizontalExpansion = fl (d * fl (real (ns ! i)))\<rparr>
        \<and> m_trailingWhitespaceType (fst (distributeExpansion fl d runs ns bs acc) ! i)
            = m_trailingWhitespaceType (runs ! i)
        \<and> m_trailingWhitespaceWidth (fst (distributeExpansion fl d runs ns bs acc) ! i)
            = m_trailingWhitespaceWidth (runs ! i))"
  using assms
proof (induction runs ns bs arbitrary: acc rule: list_induct3)
  case Nil
  then show ?case by simp
next
  case (Cons run runs n ns b bs)
  define c where "c = fl (d * fl (real n))"
  obtain runs1 a where rec: "distributeExpansion fl d runs ns bs (fl (acc + c)) = (runs1, a)"
    by (cases "distributeExpansion fl d runs ns bs (fl (acc + c))")
  from Cons.IH[of "fl (acc + c)"] rec
  have IH: "length runs1 = length runs"
    "\<forall>i < length runs. m_expansion (runs1 ! i)
            = \<lparr>behavior = bs ! i, horizontalExpansion = fl (d * fl (real (ns ! i)))\<rparr>
        \<and> m_trailingWhitespaceType (runs1 ! i) = m_trailingWhitespaceType (runs ! i)
        \<and> m_trailingWhitespaceWidth (runs1 ! i) = m_trailingWhitespaceWidth (runs ! i)"
    by simp_all
  have res: "distributeExpansion fl d (run # runs) (n # ns) (b # bs) acc =
      (shrinkHorizontally (- c)
         (setExpansion \<lparr>behavior = b, horizontalExpansion = c\<rparr>
            (moveHorizontally acc run)) # runs1, a)"
    using rec by (simp add: Let_def c_def)
  have hd: "m_expansion (shrinkHorizontally (- c)
         (setExpansion \<lparr>behavior = b, horizontalExpansion = c\<rparr>
            (moveHorizontally acc run))) = \<lparr>behavior = b, horizontalExpansion = c\<rparr>"
    "m_trailingWhitespaceType (shrinkHorizontally (- c)
         (setExpansion \<lparr>behavior = b, horizontalExpansion = c\<rparr>
            (moveHorizontally acc run))) = m_trailingWhitespaceType run"
    "m_trailingWhitespaceWidth (shrinkHorizontally (- c)
         (setExpansion \<lparr>behavior = b, horizontalExpansion = c\<rparr>
            (moveHorizontally acc run))) = m_trailingWhitespaceWidth run"
    by (simp_all add: shrinkHorizontally_def setExpansion_def moveHorizontally_def)
  show ?case
    unfolding res using IH hd
    by (auto simp: nth_Cons c_def split: nat.splits)
qed

lemma distributeExpansion_rounding:
  assumes "length runs = length ns" and "length ns = length bs"
    and "roundsWithin fl eps d ns acc" and "0 \<le> eps"
  shows "\<bar>snd (distributeExpansion fl d runs ns bs acc) - (acc + d * real (sum_list ns))\<bar>
    \<le> 2 * real (sum_list ns) * eps"
  using assms(1,2,3)
proof (induction runs ns bs arbitrary: acc rule: list_induct3)
  case Nil
  then show ?case by simp
next
  case (Cons run runs n ns b bs)
  define c where "c = fl (d * fl (real n))"
  define acc1 where "acc1 = fl (acc + c)"
  define a where "a = snd (distributeExpansion fl d runs ns bs acc1)"
  have res: "snd (distributeExpansion fl d (run # runs) (n # ns) (b # bs) acc) = a"
    by (simp add: Let_def c_def acc1_def a_def split: prod.splits)
  from Cons.prems have both: "(if n = 0 then c = 0 \<and> acc1 = acc
      else fl (real n) = real n \<and> \<bar>c - d * real n\<bar> \<le> eps \<and> \<bar>acc1 - (acc + c)\<bar> \<le> eps)
      \<and> roundsWithin fl eps d ns acc1"
    unfolding roundsWithin.simps Let_def c_def acc1_def .
  then have rest: "roundsWithin fl eps d ns acc1"
    and step: "if n = 0 then c = 0 \<and> acc1 = acc
      else fl (real n) = real n \<and> \<bar>c - d * real n\<bar> \<le> eps \<and> \<bar>acc1 - (acc + c)\<bar> \<le> eps"
    by blast+
  from Cons.IH[OF rest]
  have IH: "\<bar>a - (acc1 + d * real (sum_list ns))\<bar> \<le> 2 * real (sum_list ns) * eps"
    by (simp add: a_def)
  show ?case
  proof (cases "n = 0")
    case True
    with step have "acc1 = acc" by simp
    with True IH show ?thesis unfolding res by simp
  next
    case False
    with step have "\<bar>c - d * real n\<bar> \<le> eps" "\<bar>acc1 - (acc + c)\<bar> \<le> eps" by auto
    then have near: "\<bar>acc1 - (acc + d * real n)\<bar> \<le> 2 * eps" by arith
    from False have "1 \<le> real n" by simp
    then have "1 * eps \<le> real n * eps" using assms(4) by (rule mult_right_mono)
    with near have "\<bar>acc1 - (acc + d * real n)\<bar> \<le> 2 * real n * eps" by simp
    with IH have "\<bar>a - (acc + d * real n + d * real (sum_list ns))\<bar>
        \<le> 2 * real n * eps + 2 * real (sum_list ns) * eps" by arith
    then show ?thesis unfolding res by (simp add: algebra_simps)
  qed
qed

lemma roundsWithin_nth:
  assumes "roundsWithin fl eps d ns acc" and "0 \<le> eps" and "i < length ns"
  shows "\<bar>fl (d * fl (real (ns ! i))) - d * real (ns ! i)\<bar> \<le> eps"
  using assms(1,3)
proof (induction ns arbitrary: acc i)
  case Nil
  then show ?case by simp
next
  case (Cons n ns)
  define c where "c = fl (d * fl (real n))"
  from Cons.prems(1) have both: "(if n = 0 then c = 0 \<and> fl (acc + c) = acc
      else fl (real n) = real n \<and> \<bar>c - d * real n\<bar> \<le> eps
         \<and> \<bar>fl (acc + c) - (acc + c)\<bar> \<le> eps)
      \<and> roundsWithin fl eps d ns (fl (acc + c))"
    unfolding roundsWithin.simps Let_def c_def .
  show ?case
  proof (cases i)
    case 0
    have "\<bar>c - d * real n\<bar> \<le> eps"
    proof (cases "n = 0")
      case True
      with both have "c = 0" by simp
      with True assms(2) show ?thesis by simp
    next
      case False
      with both show ?thesis by auto
    qed
    with 0 show ?thesis by (simp add: c_def)
  next
    case (Suc j)
    from both have "roundsWithin fl eps d ns (fl (acc + c))" by blast
    moreover from Suc Cons.prems(2) have "j < length ns" by simp
    ultimately have "\<bar>fl (d * fl (real (ns ! j))) - d * real (ns ! j)\<bar> \<le> eps"
      by (rule Cons.IH)
    with Suc show ?thesis by simp
  qed
qed

lemma roundsWithin_exact: "roundsWithin (\<lambda>x. x) 0 d ns acc"
  by (induction ns arbitrary: acc) (simp_all add: Let_def)

text \<open>
  C3, as stated, fails on a line that ends with a line break. A word of five characters
  has two expansion opportunities; followed by a hard line break, and with an extra
  space of 8 (divisible by 2), \<^verbatim>\<open>applyRunExpansion\<close> returns at its first test and
  the line, so its content width, is unchanged: it does not grow by 8.
\<close>

theorem justify_before_line_break_counterexample:
  "onResult lineExpansionOpportunities
     (expansionOpportunities exEnv
        [Run_text (exWord 1 exStyle 0 5) 0 50, Run_item (exItem HardLineBreak 4) 50 0]) = Some 2
   \<and> applyRunExpansion exEnv 8
       (exLine [Run_text (exWord 1 exStyle 0 5) 0 50, Run_item (exItem HardLineBreak 4) 50 0] 50)
     = Inr (exLine [Run_text (exWord 1 exStyle 0 5) 0 50,
                    Run_item (exItem HardLineBreak 4) 50 0] 50)"
  by (simp add: expansion_defs run_defs ex_defs Let_def)

text \<open>
  C3, amended. On every line whose text runs carry their text content, the opportunity
  count and \<^verbatim>\<open>applyRunExpansion(E)\<close> both return. The line is left as it is when the
  total expansion-opportunity count is zero, and also when the line has no run or ends
  with a line break. Otherwise (a count \<open>total\<close> that is not zero, a last run that is
  not a line break), when \<open>E\<close> is evenly divisible by \<open>total\<close> and every rounding of
  the distribution errs by at most \<open>eps\<close>, the content width after the call differs
  from the old one plus \<open>E\<close> by at most \<open>(2 * total + 1) * eps\<close>, which is at most
  \<open>total\<close> times the unit \<open>3 * eps\<close>; and for \<open>E \<noteq> 0\<close> every run gets \<open>E / total\<close>
  of expansion width for each of its own opportunities, within \<open>eps\<close>. In exact
  arithmetic the content width grows by exactly \<open>E\<close>, for every \<open>E\<close>, and every share
  is exact.
\<close>

theorem justification_conserves_width:
  assumes "\<forall>r\<in>set (m_runs l). isText r \<longrightarrow> m_textContent r \<noteq> None"
  shows "\<exists>s l'. expansionOpportunities env (m_runs l) = Inr s
     \<and> applyRunExpansion env E l = Inr l'
     \<and> (lineExpansionOpportunities s = 0 \<longrightarrow> l' = l)
     \<and> (m_runs l = [] \<or> isLineBreak (last (m_runs l)) \<longrightarrow> l' = l)
     \<and> (lineExpansionOpportunities s \<noteq> 0 \<and> m_runs l \<noteq> [] \<and> \<not> isLineBreak (last (m_runs l)) \<longrightarrow>
          (\<forall>eps. distributionRoundsWithin env eps E l s \<longrightarrow>
             \<bar>m_contentLogicalWidth l' - (m_contentLogicalWidth l + E)\<bar>
               \<le> (2 * real (lineExpansionOpportunities s) + 1) * eps
           \<and> \<bar>m_contentLogicalWidth l' - (m_contentLogicalWidth l + E)\<bar>
               \<le> real (lineExpansionOpportunities s) * (3 * eps)
           \<and> (E \<noteq> 0 \<longrightarrow> length (m_runs l') = length (m_runs l)
                \<and> (\<forall>i < length (m_runs l).
                      \<bar>horizontalExpansion (m_expansion (m_runs l' ! i))
                        - E / real (lineExpansionOpportunities s)
                            * real (runsExpansionOpportunities s ! i)\<bar> \<le> eps)))
        \<and> (roundUnit env = (\<lambda>x. x) \<longrightarrow>
             m_contentLogicalWidth l' = m_contentLogicalWidth l + E
           \<and> (E \<noteq> 0 \<longrightarrow> length (m_runs l') = length (m_runs l)
                \<and> (\<forall>i < length (m_runs l).
                      horizontalExpansion (m_expansion (m_runs l' ! i))
                        = E / real (lineExpansionOpportunities s)
                            * real (runsExpansionOpportunities s ! i)))))"
proof -
  from collect_total[OF assms, of env noExpansionOpportunities] obtain c where
    c: "collectExpansionOpportunities env (m_runs l) noExpansionOpportunities = Inr c" by blast
  define s where "s = fixUpLastRun c"
  have s: "expansionOpportunities env (m_runs l) = Inr s"
    by (simp add: expansionOpportunities_def c s_def)
  from collect_invariant[OF c]
  have "length (runsExpansionOpportunities c) = length (m_runs l)"
    "length (runsExpansionBehaviors c) = length (m_runs l)"
    "lineExpansionOpportunities c = sum_list (runsExpansionOpportunities c)"
    "\<forall>i. lastRunIndexWithContent c = Some i \<longrightarrow> i < length (m_runs l)"
    by (auto split: option.splits)
  from fixUpLastRun_invariant[OF this]
  have inv: "length (m_runs l) = length (runsExpansionOpportunities s)"
    "length (runsExpansionOpportunities s) = length (runsExpansionBehaviors s)"
    "lineExpansionOpportunities s = sum_list (runsExpansionOpportunities s)"
    by (simp_all add: s_def)
  define fl where "fl = roundUnit env"
  define total where "total = lineExpansionOpportunities s"
  define ns where "ns = runsExpansionOpportunities s"
  define cw where "cw = m_contentLogicalWidth l"
  define d where "d = fl (E / fl (real total))"
  define res where "res = distributeExpansion fl d (m_runs l) ns (runsExpansionBehaviors s) 0"
  have dist: "length (fst res) = length (m_runs l)"
    "\<forall>i < length (m_runs l). horizontalExpansion (m_expansion (fst res ! i))
        = fl (d * fl (real (ns ! i)))"
    using distributeExpansion_result[OF inv(1,2), where fl = fl and d = d and acc = 0]
    by (simp_all add: res_def ns_def)
  define l' where "l' = (if m_runs l = [] \<or> isLineBreak (last (m_runs l)) \<or> E = 0
      \<or> total = 0 then l
      else l\<lparr>m_runs := fst res, m_contentLogicalWidth := fl (cw + snd res)\<rparr>)"
  have app: "applyRunExpansion env E l = Inr l'"
    by (auto simp: applyRunExpansion_def s l'_def res_def d_def fl_def total_def ns_def
        cw_def Let_def split: prod.splits)
  have p1: "lineExpansionOpportunities s = 0 \<longrightarrow> l' = l" by (simp add: l'_def total_def)
  have p2: "m_runs l = [] \<or> isLineBreak (last (m_runs l)) \<longrightarrow> l' = l"
    by (auto simp: l'_def)
  have bounds: "\<bar>m_contentLogicalWidth l' - (cw + E)\<bar> \<le> (2 * real total + 1) * eps
      \<and> \<bar>m_contentLogicalWidth l' - (cw + E)\<bar> \<le> real total * (3 * eps)
      \<and> (E \<noteq> 0 \<longrightarrow> length (m_runs l') = length (m_runs l)
           \<and> (\<forall>i < length (m_runs l).
                 \<bar>horizontalExpansion (m_expansion (m_runs l' ! i))
                    - E / real total * real (ns ! i)\<bar> \<le> eps))"
    if guard: "total \<noteq> 0" "m_runs l \<noteq> []" "\<not> isLineBreak (last (m_runs l))"
      and rounds: "distributionRoundsWithin env eps E l s" for eps
  proof -
    from rounds have exact: "fl (real total) = real total" "fl (E / real total) = E / real total"
      and loop: "roundsWithin fl eps (E / real total) ns 0"
      and final0: "\<bar>fl (cw + snd (distributeExpansion fl (E / real total) (m_runs l) ns
            (runsExpansionBehaviors s) 0))
          - (cw + snd (distributeExpansion fl (E / real total) (m_runs l) ns
            (runsExpansionBehaviors s) 0))\<bar> \<le> eps"
      by (simp_all add: distributionRoundsWithin_def Let_def fl_def total_def ns_def cw_def)
    from exact have d: "d = E / real total" by (simp add: d_def)
    from final0 have final: "\<bar>fl (cw + snd res) - (cw + snd res)\<bar> \<le> eps"
      by (simp add: res_def d)
    then have eps: "0 \<le> eps" by arith
    from guard(1) have dn: "d * real total = E" by (simp add: d)
    from guard(1) have one: "1 \<le> real total" by simp
    have "\<bar>snd res - (0 + d * real (sum_list ns))\<bar> \<le> 2 * real (sum_list ns) * eps"
      unfolding res_def
      using inv(1,2) loop eps
      by (intro distributeExpansion_rounding) (simp_all add: ns_def d)
    with inv(3) dn have acc: "\<bar>snd res - E\<bar> \<le> 2 * real total * eps"
      by (simp add: total_def ns_def)
    from eps have nonneg: "0 \<le> 2 * real total * eps" by simp
    have w1: "\<bar>m_contentLogicalWidth l' - (cw + E)\<bar> \<le> (2 * real total + 1) * eps"
    proof (cases "E = 0")
      case True
      then have "m_contentLogicalWidth l' = cw" by (simp add: l'_def cw_def)
      with True nonneg eps show ?thesis by (simp add: algebra_simps)
    next
      case False
      with guard have "m_contentLogicalWidth l' = fl (cw + snd res)" by (simp add: l'_def)
      with final acc have "\<bar>m_contentLogicalWidth l' - (cw + E)\<bar> \<le> eps + 2 * real total * eps"
        by arith
      then show ?thesis by (simp add: algebra_simps)
    qed
    from one eps have "1 * eps \<le> real total * eps" by (rule mult_right_mono)
    then have "(2 * real total + 1) * eps \<le> real total * (3 * eps)"
      by (simp add: algebra_simps)
    with w1 have w2: "\<bar>m_contentLogicalWidth l' - (cw + E)\<bar> \<le> real total * (3 * eps)"
      by simp
    have w3: "length (m_runs l') = length (m_runs l)
           \<and> (\<forall>i < length (m_runs l).
                 \<bar>horizontalExpansion (m_expansion (m_runs l' ! i))
                    - E / real total * real (ns ! i)\<bar> \<le> eps)" if "E \<noteq> 0"
    proof -
      from that guard have runs: "m_runs l' = fst res" by (simp add: l'_def)
      have "\<bar>fl (d * fl (real (ns ! i))) - d * real (ns ! i)\<bar> \<le> eps"
        if "i < length (m_runs l)" for i
        using roundsWithin_nth[OF loop eps, of i] that inv(1) by (simp add: d ns_def)
      with dist show ?thesis by (simp add: runs d)
    qed
    from w1 w2 w3 show ?thesis by blast
  qed
  have exact: "m_contentLogicalWidth l' = cw + E
      \<and> (E \<noteq> 0 \<longrightarrow> length (m_runs l') = length (m_runs l)
           \<and> (\<forall>i < length (m_runs l).
                 horizontalExpansion (m_expansion (m_runs l' ! i))
                   = E / real total * real (ns ! i)))"
    if guard: "total \<noteq> 0" "m_runs l \<noteq> []" "\<not> isLineBreak (last (m_runs l))"
      and id: "roundUnit env = (\<lambda>x. x)"
  proof -
    have "distributionRoundsWithin env 0 E l s"
      by (simp add: distributionRoundsWithin_def Let_def id roundsWithin_exact)
    from bounds[OF guard this] show ?thesis by simp
  qed
  have p3: "lineExpansionOpportunities s \<noteq> 0 \<and> m_runs l \<noteq> []
      \<and> \<not> isLineBreak (last (m_runs l)) \<longrightarrow>
          (\<forall>eps. distributionRoundsWithin env eps E l s \<longrightarrow>
             \<bar>m_contentLogicalWidth l' - (m_contentLogicalWidth l + E)\<bar>
               \<le> (2 * real (lineExpansionOpportunities s) + 1) * eps
           \<and> \<bar>m_contentLogicalWidth l' - (m_contentLogicalWidth l + E)\<bar>
               \<le> real (lineExpansionOpportunities s) * (3 * eps)
           \<and> (E \<noteq> 0 \<longrightarrow> length (m_runs l') = length (m_runs l)
                \<and> (\<forall>i < length (m_runs l).
                      \<bar>horizontalExpansion (m_expansion (m_runs l' ! i))
                        - E / real (lineExpansionOpportunities s)
                            * real (runsExpansionOpportunities s ! i)\<bar> \<le> eps)))
        \<and> (roundUnit env = (\<lambda>x. x) \<longrightarrow>
             m_contentLogicalWidth l' = m_contentLogicalWidth l + E
           \<and> (E \<noteq> 0 \<longrightarrow> length (m_runs l') = length (m_runs l)
                \<and> (\<forall>i < length (m_runs l).
                      horizontalExpansion (m_expansion (m_runs l' ! i))
                        = E / real (lineExpansionOpportunities s)
                            * real (runsExpansionOpportunities s ! i))))"
    using bounds exact unfolding total_def ns_def cw_def by blast
  show ?thesis
    by (rule exI[of _ s], rule exI[of _ l']) (use s app p1 p2 p3 in blast)
qed

lemma exFloat_opportunities:
  "expansionOpportunities exFloatEnv (m_runs exFloatLine) = Inr exFloatOpportunities"
  by (simp add: expansion_defs run_defs ex_defs exFloatLine_def exFloatOpportunities_def
      exFloatEnv_def Let_def)

lemma exFloat_rounds:
  "distributionRoundsWithin exFloatEnv (1 / 262144) (13421773 / 33554432) exFloatLine
     exFloatOpportunities"
  by (simp add: distributionRoundsWithin_def exFloatLine_def exFloatOpportunities_def
      exFloatEnv_def exEnv_def exLine_def run_defs Let_def)
    (simp add: float32_def roundHalfEven_def Let_def)

lemma exFloat_result:
  "applyRunExpansion exFloatEnv (13421773 / 33554432) exFloatLine
     = Inr (exLine
         [(Run_text (exWord 1 exStyle 0 7) 0 (70 + 5033165 / 16777216))
            \<lparr>m_expansion := \<lparr>behavior = (ForbidLeftExpansion, AllowRightExpansion),
                              horizontalExpansion = 5033165 / 16777216\<rparr>\<rparr>,
          (Run_text (exWord 2 exStyle 0 3) (70 + 5033165 / 16777216)
             (30 + 13421773 / 134217728))
            \<lparr>m_expansion := \<lparr>behavior = (AllowLeftExpansion, ForbidRightExpansion),
                              horizontalExpansion = 13421773 / 134217728\<rparr>\<rparr>]
         (13159629 / 131072))"
  by (simp add: expansion_defs run_defs ex_defs exFloatLine_def exFloatOpportunities_def
      exFloatEnv_def Let_def)
    (simp add: float32_def roundHalfEven_def Let_def)

text \<open>
  The spec's scenario in exact arithmetic: three text runs with one opportunity each and
  \<open>E = 9\<close>; every opportunity gets 3 and the content width grows from 90 to 99. In
  single precision: two words with three opportunities and one, and \<open>E\<close> =
  \<^verbatim>\<open>0.4f\<close>, four times the float \<^verbatim>\<open>0.1f\<close>. The product for the first word and
  the second running sum are rounded, and so is the final sum, to 13159629 / 131072;
  every rounding is within 1 / 262144, and the content width is within 9 / 262144 of
  \<open>100 + E\<close>.
\<close>

theorem justification_conserves_width_witness:
  "onResult lineExpansionOpportunities
     (expansionOpportunities exEnv (m_runs (exJustifiedLine 3 3 3))) = Some 3
   \<and> onResult m_contentLogicalWidth (applyRunExpansion exEnv 9 (exJustifiedLine 3 3 3))
       = Some 99
   \<and> onResult (map (horizontalExpansion \<circ> m_expansion) \<circ> m_runs)
       (applyRunExpansion exEnv 9 (exJustifiedLine 3 3 3)) = Some [3, 3, 3]
   \<and> expansionOpportunities exFloatEnv (m_runs exFloatLine) = Inr exFloatOpportunities
   \<and> distributionRoundsWithin exFloatEnv (1 / 262144) (13421773 / 33554432) exFloatLine
        exFloatOpportunities
   \<and> onResult m_contentLogicalWidth
        (applyRunExpansion exFloatEnv (13421773 / 33554432) exFloatLine)
       = Some (13159629 / 131072)
   \<and> \<bar>m_contentLogicalWidth
         (resultOr exFloatLine (applyRunExpansion exFloatEnv (13421773 / 33554432) exFloatLine))
        - (100 + 13421773 / 33554432)\<bar> \<le> 9 / 262144"
proof -
  have exact: "onResult lineExpansionOpportunities
     (expansionOpportunities exEnv (m_runs (exJustifiedLine 3 3 3))) = Some 3
   \<and> onResult m_contentLogicalWidth (applyRunExpansion exEnv 9 (exJustifiedLine 3 3 3))
       = Some 99
   \<and> onResult (map (horizontalExpansion \<circ> m_expansion) \<circ> m_runs)
       (applyRunExpansion exEnv 9 (exJustifiedLine 3 3 3)) = Some [3, 3, 3]"
    using justification_conserves_width [of "exJustifiedLine 3 3 3" exEnv 9]
    by (simp add: expansion_defs run_defs ex_defs Let_def)
  have h: "\<forall>r\<in>set (m_runs exFloatLine). isText r \<longrightarrow> m_textContent r \<noteq> None"
    by (simp add: exFloatLine_def exLine_def Run_text_def Let_def)
  have guard: "lineExpansionOpportunities exFloatOpportunities \<noteq> 0"
    "m_runs exFloatLine \<noteq> []" "\<not> isLineBreak (last (m_runs exFloatLine))"
    "m_contentLogicalWidth exFloatLine = 100"
    "real (lineExpansionOpportunities exFloatOpportunities) = 4"
    by (simp_all add: exFloatOpportunities_def exFloatLine_def exLine_def run_defs ex_defs)
  from justification_conserves_width [OF h, of exFloatEnv "13421773 / 33554432"]
  obtain s l' where s: "expansionOpportunities exFloatEnv (m_runs exFloatLine) = Inr s"
    and l': "applyRunExpansion exFloatEnv (13421773 / 33554432) exFloatLine = Inr l'"
    and bound: "lineExpansionOpportunities s \<noteq> 0 \<and> m_runs exFloatLine \<noteq> []
        \<and> \<not> isLineBreak (last (m_runs exFloatLine)) \<longrightarrow>
      (distributionRoundsWithin exFloatEnv (1 / 262144) (13421773 / 33554432)
        exFloatLine s \<longrightarrow>
      \<bar>m_contentLogicalWidth l' - (m_contentLogicalWidth exFloatLine + 13421773 / 33554432)\<bar>
        \<le> (2 * real (lineExpansionOpportunities s) + 1) * (1 / 262144))"
    by blast
  from s have s_eq: "s = exFloatOpportunities" by (simp add: exFloat_opportunities)
  from bound guard(1,2,3) exFloat_rounds
  have "\<bar>m_contentLogicalWidth l' - (m_contentLogicalWidth exFloatLine + 13421773 / 33554432)\<bar>
        \<le> (2 * real (lineExpansionOpportunities exFloatOpportunities) + 1) * (1 / 262144)"
    unfolding s_eq by blast
  then have "\<bar>m_contentLogicalWidth l' - (100 + 13421773 / 33554432)\<bar> \<le> 9 / 262144"
    by (simp add: guard(4,5))
  then have float: "\<bar>m_contentLogicalWidth
         (resultOr exFloatLine (applyRunExpansion exFloatEnv (13421773 / 33554432) exFloatLine))
        - (100 + 13421773 / 33554432)\<bar> \<le> 9 / 262144"
    by (simp add: l' resultOr_def)
  have val: "onResult m_contentLogicalWidth
        (applyRunExpansion exFloatEnv (13421773 / 33554432) exFloatLine)
       = Some (13159629 / 131072)"
    by (simp add: exFloat_result onResult_def exLine_def)
  from exact exFloat_opportunities exFloat_rounds val float show ?thesis by blast
qed

lemma runExpansionOpportunities_positive:
  assumes "runExpansionOpportunities env run a0 = Inr (b, n, a)" and "n \<noteq> 0"
  shows "isText run \<and> snd b = AllowRightExpansion
    \<and> (\<exists>tc. m_textContent run = Some tc
          \<and> expansionOpportunityCount env (m_layoutBox run) (textStart tc) (textLength tc) b
              = (n, a))"
  using assms
  by (auto simp: runExpansionOpportunities_def Let_def
      split: if_splits option.splits prod.splits)

text \<open>
  C4, as stated, fails when the last run with content has no expansion opportunity of
  its own. Of three words with one, one and no opportunity, the last keeps the
  behaviour of the first loop, with right expansion allowed, after
  \<^verbatim>\<open>applyRunExpansion\<close> has distributed the space.
\<close>

theorem last_run_without_opportunity_counterexample:
  "onResult (map (behavior \<circ> m_expansion) \<circ> m_runs)
     (applyRunExpansion exEnv 9 (exJustifiedLine 3 3 1))
   = Some [(ForbidLeftExpansion, AllowRightExpansion), (AllowLeftExpansion, AllowRightExpansion),
           (AllowLeftExpansion, AllowRightExpansion)]"
  by (simp add: expansion_defs run_defs ex_defs Let_def)

text \<open>
  C4, amended. Let the first loop of \<^verbatim>\<open>applyRunExpansion\<close> end in state \<open>c\<close>, with
  \<open>i\<close> the index of the last run with content (the last text or atomic-box run), and
  let that run have at least one expansion opportunity of its own. Then run \<open>i\<close> is a
  text run, no run after it has content, and its count and the final
  \<^verbatim>\<open>runIsAfterExpansion\<close> are what \<^verbatim>\<open>expansionOpportunityCount\<close> returned for its
  own text. The fix-up keeps the left part of its behaviour and forbids right expansion;
  when the run's text ends after an expansion, one opportunity is subtracted from the
  run's count and from the line's total, otherwise both stay. When the space is
  distributed, run \<open>i\<close> of the resulting line has right expansion forbidden.
\<close>

theorem last_run_right_expansion_forbidden:
  assumes "collectExpansionOpportunities env (m_runs l) noExpansionOpportunities = Inr c"
    and "lastRunIndexWithContent c = Some i"
    and "runsExpansionOpportunities c ! i \<noteq> 0"
  shows "i < length (m_runs l) \<and> isText (m_runs l ! i)
    \<and> (\<forall>j < length (m_runs l). i < j \<longrightarrow> \<not> isText (m_runs l ! j) \<and> \<not> isBox (m_runs l ! j))
    \<and> (\<exists>tc. m_textContent (m_runs l ! i) = Some tc
          \<and> expansionOpportunityCount env (m_layoutBox (m_runs l ! i)) (textStart tc)
                (textLength tc) (runsExpansionBehaviors c ! i)
              = (runsExpansionOpportunities c ! i, runIsAfterExpansion c))
    \<and> expansionOpportunities env (m_runs l) = Inr (fixUpLastRun c)
    \<and> runsExpansionBehaviors (fixUpLastRun c) ! i
        = (fst (runsExpansionBehaviors c ! i), ForbidRightExpansion)
    \<and> (runIsAfterExpansion c \<longrightarrow>
          runsExpansionOpportunities (fixUpLastRun c) ! i + 1 = runsExpansionOpportunities c ! i
        \<and> lineExpansionOpportunities (fixUpLastRun c) + 1 = lineExpansionOpportunities c)
    \<and> (\<not> runIsAfterExpansion c \<longrightarrow>
          runsExpansionOpportunities (fixUpLastRun c) ! i = runsExpansionOpportunities c ! i
        \<and> lineExpansionOpportunities (fixUpLastRun c) = lineExpansionOpportunities c)
    \<and> (\<forall>l'. applyRunExpansion env E l = Inr l' \<and> m_runs l \<noteq> []
            \<and> \<not> isLineBreak (last (m_runs l)) \<and> E \<noteq> 0
            \<and> lineExpansionOpportunities (fixUpLastRun c) \<noteq> 0 \<longrightarrow>
          snd (behavior (m_expansion (m_runs l' ! i))) = ForbidRightExpansion)"
proof -
  from collect_invariant[OF assms(1)] assms(2)
  have len: "length (runsExpansionOpportunities c) = length (m_runs l)"
    "length (runsExpansionBehaviors c) = length (m_runs l)"
    "lineExpansionOpportunities c = sum_list (runsExpansionOpportunities c)"
    and i: "i < length (m_runs l)"
    and later: "\<forall>j < length (m_runs l). i < j \<longrightarrow>
        \<not> isText (m_runs l ! j) \<and> \<not> isBox (m_runs l ! j)"
    and "\<exists>a0. runExpansionOpportunities env (m_runs l ! i) a0
          = Inr (runsExpansionBehaviors c ! i, runsExpansionOpportunities c ! i,
                 runIsAfterExpansion c)"
    by auto
  then obtain a0 where "runExpansionOpportunities env (m_runs l ! i) a0
          = Inr (runsExpansionBehaviors c ! i, runsExpansionOpportunities c ! i,
                 runIsAfterExpansion c)" by blast
  from runExpansionOpportunities_positive[OF this assms(3)]
  have istext: "isText (m_runs l ! i)"
    and own: "\<exists>tc. m_textContent (m_runs l ! i) = Some tc
          \<and> expansionOpportunityCount env (m_layoutBox (m_runs l ! i)) (textStart tc)
                (textLength tc) (runsExpansionBehaviors c ! i)
              = (runsExpansionOpportunities c ! i, runIsAfterExpansion c)"
    by auto
  have s: "expansionOpportunities env (m_runs l) = Inr (fixUpLastRun c)"
    by (simp add: expansionOpportunities_def assms(1))
  have beh: "runsExpansionBehaviors (fixUpLastRun c) ! i
        = (fst (runsExpansionBehaviors c ! i), ForbidRightExpansion)"
    using assms(2,3) i len(2) by (simp add: fixUpLastRun_def Let_def)
  have pos: "0 < runsExpansionOpportunities c ! i" using assms(3) by simp
  have "runsExpansionOpportunities c ! i \<in> set (runsExpansionOpportunities c)"
    using i len(1) by simp
  then have "runsExpansionOpportunities c ! i \<le> sum_list (runsExpansionOpportunities c)"
    by (simp add: member_le_sum_list)
  with pos len(3) have linepos: "0 < lineExpansionOpportunities c" by simp
  have after: "runIsAfterExpansion c \<longrightarrow>
          runsExpansionOpportunities (fixUpLastRun c) ! i + 1 = runsExpansionOpportunities c ! i
        \<and> lineExpansionOpportunities (fixUpLastRun c) + 1 = lineExpansionOpportunities c"
    using assms(2,3) i len(1) pos linepos by (simp add: fixUpLastRun_def Let_def)
  have notafter: "\<not> runIsAfterExpansion c \<longrightarrow>
          runsExpansionOpportunities (fixUpLastRun c) ! i = runsExpansionOpportunities c ! i
        \<and> lineExpansionOpportunities (fixUpLastRun c) = lineExpansionOpportunities c"
    using assms(2,3) by (simp add: fixUpLastRun_def Let_def)
  have "\<forall>i. lastRunIndexWithContent c = Some i \<longrightarrow> i < length (m_runs l)"
    using assms(2) i by simp
  from fixUpLastRun_invariant[OF len(1,2,3) this]
  have flen: "length (runsExpansionOpportunities (fixUpLastRun c)) = length (m_runs l)"
    "length (runsExpansionBehaviors (fixUpLastRun c)) = length (m_runs l)"
    by simp_all
  have final: "snd (behavior (m_expansion (m_runs l' ! i))) = ForbidRightExpansion"
    if "applyRunExpansion env E l = Inr l'" "m_runs l \<noteq> []"
      "\<not> isLineBreak (last (m_runs l))" "E \<noteq> 0"
      "lineExpansionOpportunities (fixUpLastRun c) \<noteq> 0" for l'
  proof -
    define d where "d = roundUnit env
        (E / roundUnit env (real (lineExpansionOpportunities (fixUpLastRun c))))"
    from that have "m_runs l' = fst (distributeExpansion (roundUnit env) d (m_runs l)
        (runsExpansionOpportunities (fixUpLastRun c))
        (runsExpansionBehaviors (fixUpLastRun c)) 0)"
      by (auto simp: applyRunExpansion_def s d_def Let_def split: prod.splits)
    moreover have "m_expansion (fst (distributeExpansion (roundUnit env) d (m_runs l)
        (runsExpansionOpportunities (fixUpLastRun c))
        (runsExpansionBehaviors (fixUpLastRun c)) 0) ! i)
        = \<lparr>behavior = runsExpansionBehaviors (fixUpLastRun c) ! i,
           horizontalExpansion = roundUnit env
             (d * roundUnit env (real (runsExpansionOpportunities (fixUpLastRun c) ! i)))\<rparr>"
      using distributeExpansion_result[where runs = "m_runs l"
          and ns = "runsExpansionOpportunities (fixUpLastRun c)"
          and bs = "runsExpansionBehaviors (fixUpLastRun c)" and fl = "roundUnit env"
          and d = d and acc = 0] flen i by simp
    ultimately show ?thesis by (simp add: beh)
  qed
  show ?thesis
    using i istext later own s beh after notafter final by blast
qed

text \<open>
  Three words of 3, 3 and 2 characters, one opportunity each, the last ending after an
  expansion: the fix-up turns the last behaviour into allow-left, forbid-right and
  brings the last count from 1 to 0 and the total from 3 to 2.
\<close>

theorem last_run_right_expansion_forbidden_witness:
  "collectExpansionOpportunities exEnv (m_runs (exJustifiedLine 3 3 2))
       noExpansionOpportunities = Inr exCollected
   \<and> lastRunIndexWithContent exCollected = Some 2
   \<and> runsExpansionOpportunities exCollected ! 2 = 1
   \<and> runIsAfterExpansion exCollected
   \<and> runsExpansionBehaviors (fixUpLastRun exCollected) ! 2
       = (AllowLeftExpansion, ForbidRightExpansion)
   \<and> runsExpansionOpportunities (fixUpLastRun exCollected) ! 2 = 0
   \<and> lineExpansionOpportunities (fixUpLastRun exCollected) = 2
   \<and> onResult (snd \<circ> behavior \<circ> m_expansion \<circ> last \<circ> m_runs)
        (applyRunExpansion exEnv 9 (exJustifiedLine 3 3 2)) = Some ForbidRightExpansion"
  using last_run_right_expansion_forbidden [of exEnv "exJustifiedLine 3 3 2" exCollected 2 9]
  by (simp add: expansion_defs run_defs ex_defs Let_def)

subsection \<open>The trailing-whitespace invariant\<close>

lemma run_ok_ctor:
  "run_ok (Run_text it x w)" "run_ok (Run_item it x w)" "run_ok (Run_softLineBreak it x)"
  by (simp_all add: run_ok_def Run_text_def Run_item_def Run_softLineBreak_def Let_def)

lemma run_ok_expand: "expand it w r = Inr r' \<Longrightarrow> run_ok r'"
  by (auto simp: expand_def run_ok_def Let_def split: option.splits if_splits)

lemma run_ok_geometry:
  "run_ok (moveHorizontally x r) = run_ok r"
  "run_ok (shrinkHorizontally x r) = run_ok r"
  "run_ok (setExpansion e r) = run_ok r"
  "run_ok (setNeedsHyphen x r) = run_ok r"
  "run_ok (removeTrailingLetterSpacing r) = run_ok r"
  by (simp_all add: run_ok_def moveHorizontally_def shrinkHorizontally_def setExpansion_def
      setNeedsHyphen_def removeTrailingLetterSpacing_def)

lemma visuallyCollapse_spec:
  "fst (visuallyCollapseTrailingWhitespace t r) = min t (m_trailingWhitespaceWidth r)"
  "m_trailingWhitespaceWidth (snd (visuallyCollapseTrailingWhitespace t r))
     = m_trailingWhitespaceWidth r - fst (visuallyCollapseTrailingWhitespace t r)"
  "m_trailingWhitespaceType (snd (visuallyCollapseTrailingWhitespace t r))
     = (if m_trailingWhitespaceWidth (snd (visuallyCollapseTrailingWhitespace t r)) = 0
        then NoTrailingWhitespace else m_trailingWhitespaceType r)"
  by (auto simp: visuallyCollapseTrailingWhitespace_def Let_def shrinkHorizontally_def)

lemma visuallyCollapse_width:
  "m_logicalWidth (snd (visuallyCollapseTrailingWhitespace t r))
     = m_logicalWidth r - fst (visuallyCollapseTrailingWhitespace t r)"
  by (simp add: visuallyCollapseTrailingWhitespace_def Let_def shrinkHorizontally_def)

lemma visuallyCollapse_run:
  "snd (visuallyCollapseTrailingWhitespace t r)
     = r\<lparr>m_logicalWidth := m_logicalWidth r - min t (m_trailingWhitespaceWidth r),
         m_trailingWhitespaceWidth :=
           m_trailingWhitespaceWidth r - min t (m_trailingWhitespaceWidth r),
         m_trailingWhitespaceType :=
           (if m_trailingWhitespaceWidth r - min t (m_trailingWhitespaceWidth r) = 0
            then NoTrailingWhitespace else m_trailingWhitespaceType r)\<rparr>"
  by (simp add: visuallyCollapseTrailingWhitespace_def Let_def shrinkHorizontally_def)

lemma run_ok_visuallyCollapse:
  assumes "run_ok r" and "0 \<le> t \<or> hasTrailingWhitespace r"
  shows "run_ok (snd (visuallyCollapseTrailingWhitespace t r))"
proof (cases "m_trailingWhitespaceType r = NoTrailingWhitespace")
  case True
  with assms have "m_trailingWhitespaceWidth r = 0" "0 \<le> t"
    by (simp_all add: run_ok_def hasTrailingWhitespace_def)
  then show ?thesis by (simp add: run_ok_def visuallyCollapse_spec)
next
  case False
  then show ?thesis by (simp add: run_ok_def visuallyCollapse_spec)
qed

lemma run_ok_removeTrailingWhitespace:
  "removeTrailingWhitespace r = Inr r' \<Longrightarrow> run_ok r'"
  by (auto simp: removeTrailingWhitespace_def run_ok_def visuallyCollapse_spec Let_def
      split: option.splits)

lemma remove_ok:
  assumes "remove t runs = Inr (w, t', runs')" and "\<forall>r\<in>set runs. run_ok r"
  shows "\<forall>r\<in>set runs'. run_ok r"
proof -
  from assms(1) obtain i where i: "m_firstTrimmableRunIndex t = Some i" "i < length runs"
    by (auto simp: remove_def split: option.splits if_splits)
  from assms(1) i obtain r1 where r1:
    "(if m_hasFullyTrimmableContent t then removeTrailingWhitespace (runs ! i)
      else Inr (runs ! i)) = Inr r1"
    by (auto simp: remove_def split: sum.splits)
  have "run_ok r1"
    using r1 assms(2) i(2) by (auto split: if_splits dest: run_ok_removeTrailingWhitespace)
  define r2 where "r2 = (if m_partiallyTrimmableWidth t \<noteq> 0
                            then removeTrailingLetterSpacing r1 else r1)"
  have r2: "run_ok r2" using \<open>run_ok r1\<close> by (simp add: r2_def run_ok_geometry)
  define runs1 where "runs1 = take i runs @ [r2]
                        @ map (moveHorizontally (- width t)) (drop (Suc i) runs)"
  have ok1: "\<forall>r\<in>set runs1. run_ok r"
    using assms(2) r2
    by (auto simp: runs1_def run_ok_geometry dest: in_set_takeD in_set_dropD)
  from assms(1) i r1 have "runs' = runs1 \<or> runs' = take i runs1 @ drop (Suc i) runs1"
    by (auto simp: remove_def Let_def r2_def runs1_def split: option.splits if_splits)
  then have "set runs' \<subseteq> set runs1"
    by (auto dest: in_set_takeD in_set_dropD)
  with ok1 show ?thesis by blast
qed

lemma line_ok_snoc: "line_ok l \<Longrightarrow> run_ok r \<Longrightarrow> m_runs l' = m_runs l @ [r] \<Longrightarrow> line_ok l'"
  by (simp add: line_ok_def)

lemma runs_setTrailingTrimmableContent:
  "m_runs (setTrailingTrimmableContent env it old l) = m_runs l"
  by (simp add: setTrailingTrimmableContent_def Let_def)

lemma line_ok_appendTextContent:
  assumes "appendTextContent env it w l = Inr l'" and "line_ok l"
  shows "line_ok l'"
proof (cases "willCollapseCompletely l it")
  case True
  with assms show ?thesis by (simp add: appendTextContent_def)
next
  case False
  show ?thesis
  proof (cases "needsNewRun l it")
    case True
    with False assms(1) have "m_runs l' = m_runs l @ [Run_text it (contentLogicalRight l
        + (if isWordSeparator it then wordSpacing (style (itemLayoutBox it)) else 0)) w]"
      by (auto simp: appendTextContent_def Let_def runs_setTrailingTrimmableContent)
    with assms(2) show ?thesis by (intro line_ok_snoc[of l _ l']) (simp_all add: run_ok_ctor)
  next
    case nn: False
    with False assms(1) obtain r where r: "expand it w (last (m_runs l)) = Inr r"
      "l' = setTrailingTrimmableContent env it (contentLogicalWidth l)
              (l\<lparr>m_runs := butlast (m_runs l) @ [r],
                 m_contentLogicalWidth := m_contentLogicalWidth l + max 0 w\<rparr>)"
      by (auto simp: appendTextContent_def Let_def split: sum.splits)
    from r(1) have "run_ok r" by (rule run_ok_expand)
    have "m_runs l' = butlast (m_runs l) @ [r]"
      by (simp add: r(2) runs_setTrailingTrimmableContent)
    with assms(2) \<open>run_ok r\<close> show ?thesis
      by (auto simp: line_ok_def dest: in_set_butlastD)
  qed
qed

lemma line_ok_appendNonBreakableSpace:
  "line_ok l \<Longrightarrow> line_ok (appendNonBreakableSpace it x w l)"
  by (simp add: appendNonBreakableSpace_def line_ok_def run_ok_ctor)

lemma line_ok_appendInlineBoxEnd:
  assumes "appendInlineBoxEnd it w l = Inr l'" and "line_ok l"
  shows "line_ok l'"
proof (cases "isTrailingRunPartiallyTrimmable (m_trimmableTrailingContent l)")
  case False
  with assms show ?thesis
    by (auto simp: appendInlineBoxEnd_def line_ok_appendNonBreakableSpace)
next
  case True
  with assms(1) obtain x t runs where rm:
    "remove (m_trimmableTrailingContent l) (m_runs l) = Inr (x, t, runs)"
    and l': "l' = appendNonBreakableSpace it
        (contentLogicalRight (l\<lparr>m_runs := runs, m_trimmableTrailingContent := t,
                          m_contentLogicalWidth := m_contentLogicalWidth l - x\<rparr>)) w
        (l\<lparr>m_runs := runs, m_trimmableTrailingContent := t,
                          m_contentLogicalWidth := m_contentLogicalWidth l - x\<rparr>)"
    by (auto simp: appendInlineBoxEnd_def removePartiallyTrimmableContent_def Let_def
        split: sum.splits)
  from remove_ok[OF rm] assms(2) have "\<forall>r\<in>set runs. run_ok r" by (simp add: line_ok_def)
  then show ?thesis
    unfolding l' by (intro line_ok_appendNonBreakableSpace) (simp add: line_ok_def)
qed

lemma line_ok_append:
  assumes "append_line env it w l = Inr l'" and "line_ok l"
  shows "line_ok l'"
proof (cases "itemType it")
  case Text
  with assms show ?thesis by (auto simp: append_line_def dest: line_ok_appendTextContent)
next
  case HardLineBreak
  with assms show ?thesis
    by (auto simp: append_line_def appendLineBreak_def Let_def line_ok_def run_ok_ctor)
next
  case SoftLineBreak
  with assms show ?thesis
    by (auto simp: append_line_def appendLineBreak_def Let_def line_ok_def run_ok_ctor)
next
  case WordBreakOpportunity
  with assms show ?thesis
    by (auto simp: append_line_def appendWordBreakOpportunity_def line_ok_def run_ok_ctor)
next
  case Box
  with assms show ?thesis
    by (auto simp: append_line_def appendReplacedInlineLevelBox_def
        appendNonReplacedInlineLevelBox_def Let_def line_ok_def run_ok_ctor split: if_splits)
next
  case InlineBoxStart
  with assms(1) have "m_runs l' = m_runs l @ [Run_item it (contentLogicalRight
      (l\<lparr>m_nonSpanningInlineLevelBoxCount := m_nonSpanningInlineLevelBoxCount l + 1\<rparr>)) w]"
    by (auto simp: append_line_def appendInlineBoxStart_def Let_def appendNonBreakableSpace_def)
  with assms(2) show ?thesis by (intro line_ok_snoc[of l _ l']) (simp_all add: run_ok_ctor)
next
  case InlineBoxEnd
  with assms show ?thesis by (auto simp: append_line_def dest: line_ok_appendInlineBoxEnd)
qed

lemma line_ok_removeTrailingTrimmableContent:
  assumes "removeTrailingTrimmableContent env l = Inr l'" and "line_ok l"
  shows "line_ok l'"
proof -
  from assms(1) have "m_runs l' = m_runs l
    \<or> (\<exists>w t. remove (m_trimmableTrailingContent l) (m_runs l) = Inr (w, t, m_runs l'))"
    by (auto simp: removeTrailingTrimmableContent_def split: if_splits sum.splits)
  with assms(2) remove_ok show ?thesis by (auto simp: line_ok_def)
qed

lemma collapsePreWrapRuns_ok:
  "0 < ov \<Longrightarrow> \<forall>r\<in>set runs. run_ok r \<Longrightarrow>
   \<forall>r\<in>set (fst (collapsePreWrapRuns runs ov tr)). run_ok r"
proof (induction runs ov tr rule: collapsePreWrapRuns.induct)
  case (1 ov tr)
  then show ?case by simp
next
  case (2 run rest ov tr)
  show ?case
  proof (cases "whiteSpace (style (m_layoutBox run)) \<noteq> PreWrap
      \<or> \<not> (isInlineBoxStart run \<or> isInlineBoxEnd run \<or> hasTrailingWhitespace run)")
    case True
    with "2.prems" show ?thesis by auto
  next
    case False
    define p where "p = (if isText run then visuallyCollapseTrailingWhitespace ov run
                else (m_logicalWidth run, shrinkHorizontally (m_logicalWidth run) run))"
    obtain tw run1 where p: "p = (tw, run1)" by (cases p)
    have ok1: "run_ok run1"
      using p "2.prems" run_ok_visuallyCollapse[of run ov]
      by (auto simp: p_def run_ok_geometry split: if_splits)
    show ?thesis
    proof (cases "ov - tw \<le> 0")
      case True
      with False p ok1 "2.prems" show ?thesis
        by (simp add: p_def[symmetric])
    next
      case nf: False
      then have pos: "0 < ov - tw" by simp
      have "\<forall>r\<in>set (fst (collapsePreWrapRuns rest (ov - tw) (tr + tw))). run_ok r"
        using "2.IH"[of "(tw, run1)" tw run1] False p nf pos "2.prems"(2)
        by (simp add: p_def[symmetric])
      with False p ok1 nf show ?thesis
        by (simp add: p_def[symmetric] split: prod.splits)
    qed
  qed
qed

lemma line_ok_visuallyCollapse:
  "line_ok l \<Longrightarrow> line_ok (visuallyCollapsePreWrapOverflowContent E l)"
  using collapsePreWrapRuns_ok[of "- E" "rev (m_runs l)" 0]
  by (auto simp: visuallyCollapsePreWrapOverflowContent_def line_ok_def Let_def
      split: prod.splits)

lemma line_ok_removeCollapsibleContent:
  "removeCollapsibleContent env E l = Inr l' \<Longrightarrow> line_ok l \<Longrightarrow> line_ok l'"
  by (auto simp: removeCollapsibleContent_def split: sum.splits
      dest: line_ok_removeTrailingTrimmableContent intro: line_ok_visuallyCollapse)


lemma hyphenateLastTextRun_ok:
  "hyphenateLastTextRun w rs = Some rs' \<Longrightarrow> \<forall>r\<in>set rs. run_ok r \<Longrightarrow>
   \<forall>r\<in>set rs'. run_ok r"
  by (induction rs arbitrary: rs')
    (auto simp: run_ok_geometry split: if_splits option.splits)

lemma line_ok_addTrailingHyphen:
  "addTrailingHyphen w l = Inr l' \<Longrightarrow> line_ok l \<Longrightarrow> line_ok l'"
  using hyphenateLastTextRun_ok[of w "rev (m_runs l)"]
  by (auto simp: addTrailingHyphen_def line_ok_def split: option.splits)

lemma line_ok_applyRunExpansion:
  assumes "applyRunExpansion env E l = Inr l'" and "line_ok l"
  shows "line_ok l'"
proof (cases "l' = l")
  case True
  with assms(2) show ?thesis by simp
next
  case False
  with assms(1) obtain s where s: "expansionOpportunities env (m_runs l) = Inr s"
    and runs': "m_runs l' = fst (distributeExpansion (roundUnit env)
        (roundUnit env (E / roundUnit env (real (lineExpansionOpportunities s)))) (m_runs l)
        (runsExpansionOpportunities s) (runsExpansionBehaviors s) 0)"
    by (auto simp: applyRunExpansion_def Let_def split: if_splits sum.splits prod.splits)
  define d where "d = roundUnit env (E / roundUnit env (real (lineExpansionOpportunities s)))"
  note runs' = runs'[folded d_def]
  from s obtain c where c:
    "collectExpansionOpportunities env (m_runs l) noExpansionOpportunities = Inr c"
    "s = fixUpLastRun c"
    by (auto simp: expansionOpportunities_def split: sum.splits)
  from collect_invariant[OF c(1)]
  have "length (runsExpansionOpportunities c) = length (m_runs l)"
    "length (runsExpansionBehaviors c) = length (m_runs l)"
    "lineExpansionOpportunities c = sum_list (runsExpansionOpportunities c)"
    "\<forall>i. lastRunIndexWithContent c = Some i \<longrightarrow> i < length (m_runs l)"
    by (auto split: option.splits)
  from fixUpLastRun_invariant[OF this]
  have len: "length (m_runs l) = length (runsExpansionOpportunities s)"
    "length (runsExpansionOpportunities s) = length (runsExpansionBehaviors s)"
    by (simp_all add: c(2))
  note res = distributeExpansion_result[OF len, where fl = "roundUnit env" and d = d
      and acc = 0]
  show ?thesis
    unfolding line_ok_def
  proof
    fix r assume "r \<in> set (m_runs l')"
    then obtain i where i: "i < length (m_runs l)" "r = m_runs l' ! i"
      using res by (auto simp: runs' in_set_conv_nth)
    with res have "m_trailingWhitespaceType r = m_trailingWhitespaceType (m_runs l ! i)"
      "m_trailingWhitespaceWidth r = m_trailingWhitespaceWidth (m_runs l ! i)"
      by (simp_all add: runs')
    moreover have "run_ok (m_runs l ! i)" using assms(2) i(1) by (simp add: line_ok_def)
    ultimately show "run_ok r" by (simp add: run_ok_def)
  qed
qed

lemma line_ok_initialize: "line_ok (initialize l)"
  by (simp add: initialize_def line_ok_def)

lemma line_ok_perform:
  "perform env operation l = Inr l' \<Longrightarrow> line_ok l \<Longrightarrow> line_ok l'"
  by (cases operation)
    (auto intro: line_ok_append line_ok_removeCollapsibleContent line_ok_applyRunExpansion
      line_ok_addTrailingHyphen line_ok_initialize)

lemma line_ok_performAll:
  "performAll env operations l = Inr l' \<Longrightarrow> line_ok l \<Longrightarrow> line_ok l'"
proof (induction operations arbitrary: l)
  case Nil
  then show ?case by simp
next
  case (Cons operation rest)
  then obtain l1 where "perform env operation l = Inr l1" "performAll env rest l1 = Inr l'"
    by (auto split: sum.splits)
  with Cons.IH[of l1] Cons.prems(2) line_ok_perform[of env operation l l1] show ?case
    by blast
qed

text \<open>
  C10. Every run of a line reached from \<^verbatim>\<open>initialize\<close> by any sequence of the
  line's operations satisfies the invariant: a run whose trailing whitespace type is
  None has a trailing-whitespace width of zero. Step by step: on a line all of whose
  runs satisfy the invariant, every run of the line left by \<^verbatim>\<open>append\<close>,
  \<^verbatim>\<open>removeCollapsibleContent\<close>, \<^verbatim>\<open>applyRunExpansion\<close> and
  \<^verbatim>\<open>addTrailingHyphen\<close> satisfies it, and so does the line left by
  \<^verbatim>\<open>initialize\<close>; the run of each constructor and of
  \<^verbatim>\<open>Run::expand\<close> satisfies it. \<^verbatim>\<open>visuallyCollapseTrailingWhitespace\<close> returns a
  trimmed width that is at most the run's trailing-whitespace width, subtracts it from
  that width, and leaves the type None when the remaining width is zero and unchanged
  otherwise. The trimmed width is the smaller of the requested width and the run's
  trailing-whitespace width; it is what the logical width of the run loses, and the run
  is otherwise as it was. On a run with trailing whitespace the type is None after the
  call exactly when the remaining trailing-whitespace width is zero.
\<close>

theorem trailing_whitespace_invariant:
  assumes "line_ok l"
  shows "(\<forall>l'. performAll env operations (initialize l0) = Inr l' \<longrightarrow> line_ok l')
    \<and> (\<forall>l'. append_line env inlineItem logicalWidth l = Inr l' \<longrightarrow> line_ok l')
    \<and> (\<forall>l'. removeCollapsibleContent env E l = Inr l' \<longrightarrow> line_ok l')
    \<and> (\<forall>l'. applyRunExpansion env E l = Inr l' \<longrightarrow> line_ok l')
    \<and> (\<forall>l'. addTrailingHyphen hyphenLogicalWidth l = Inr l' \<longrightarrow> line_ok l')
    \<and> line_ok (initialize l)
    \<and> run_ok (Run_text inlineItem x logicalWidth)
    \<and> run_ok (Run_item inlineItem x logicalWidth)
    \<and> run_ok (Run_softLineBreak inlineItem x)
    \<and> (\<forall>r'. expand inlineItem logicalWidth r = Inr r' \<longrightarrow> run_ok r')
    \<and> fst (visuallyCollapseTrailingWhitespace t r) \<le> m_trailingWhitespaceWidth r
    \<and> m_trailingWhitespaceWidth (snd (visuallyCollapseTrailingWhitespace t r))
        = m_trailingWhitespaceWidth r - fst (visuallyCollapseTrailingWhitespace t r)
    \<and> m_trailingWhitespaceType (snd (visuallyCollapseTrailingWhitespace t r))
        = (if m_trailingWhitespaceWidth (snd (visuallyCollapseTrailingWhitespace t r)) = 0
           then NoTrailingWhitespace else m_trailingWhitespaceType r)
    \<and> fst (visuallyCollapseTrailingWhitespace t r) = min t (m_trailingWhitespaceWidth r)
    \<and> m_logicalWidth (snd (visuallyCollapseTrailingWhitespace t r))
        = m_logicalWidth r - fst (visuallyCollapseTrailingWhitespace t r)
    \<and> snd (visuallyCollapseTrailingWhitespace t r)
        = r\<lparr>m_logicalWidth := m_logicalWidth r - min t (m_trailingWhitespaceWidth r),
            m_trailingWhitespaceWidth :=
              m_trailingWhitespaceWidth r - min t (m_trailingWhitespaceWidth r),
            m_trailingWhitespaceType :=
              (if m_trailingWhitespaceWidth r - min t (m_trailingWhitespaceWidth r) = 0
               then NoTrailingWhitespace else m_trailingWhitespaceType r)\<rparr>
    \<and> (m_trailingWhitespaceType r \<noteq> NoTrailingWhitespace \<longrightarrow>
         (m_trailingWhitespaceType (snd (visuallyCollapseTrailingWhitespace t r))
            = NoTrailingWhitespace
          \<longleftrightarrow> m_trailingWhitespaceWidth (snd (visuallyCollapseTrailingWhitespace t r)) = 0))"
proof -
  have "fst (visuallyCollapseTrailingWhitespace t r) \<le> m_trailingWhitespaceWidth r"
    by (simp add: visuallyCollapse_spec(1))
  moreover have "\<forall>l'. performAll env operations (initialize l0) = Inr l' \<longrightarrow> line_ok l'"
    using line_ok_performAll[of env operations "initialize l0"] line_ok_initialize[of l0]
    by blast
  moreover have "m_trailingWhitespaceType r \<noteq> NoTrailingWhitespace \<longrightarrow>
         (m_trailingWhitespaceType (snd (visuallyCollapseTrailingWhitespace t r))
            = NoTrailingWhitespace
          \<longleftrightarrow> m_trailingWhitespaceWidth (snd (visuallyCollapseTrailingWhitespace t r)) = 0)"
    by (simp add: visuallyCollapse_spec(3))
  ultimately show ?thesis
    using assms line_ok_append[of env inlineItem logicalWidth l]
      line_ok_removeCollapsibleContent[of env E l]
      line_ok_applyRunExpansion[of env E l]
      line_ok_addTrailingHyphen[of hyphenLogicalWidth l]
      line_ok_initialize[of l] run_ok_ctor run_ok_expand[of inlineItem logicalWidth r]
      visuallyCollapse_spec(2,3) visuallyCollapse_spec(1)[of t r]
      visuallyCollapse_width[of t r] visuallyCollapse_run[of t r]
    by blast
qed

text \<open>
  On "Hello " (one run, 54 wide, collapsible trailing space 4 wide): the lines after
  trimming, after a further word and after a hyphen satisfy the invariant; collapsing 3
  of the 4 units keeps the type and leaves the run 51 wide, collapsing 9 trims 4, resets
  the type and leaves the run 50 wide.
\<close>

theorem trailing_whitespace_invariant_witness:
  "line_ok exHelloLine
   \<and> onResult line_ok (removeCollapsibleContent exEnv 5 exHelloLine) = Some True
   \<and> onResult line_ok (append_line exEnv (exWord 1 exStyle 6 3) 30 exHelloLine) = Some True
   \<and> onResult line_ok (addTrailingHyphen 4 exHelloLine) = Some True
   \<and> fst (visuallyCollapseTrailingWhitespace 3 (last (m_runs exHelloLine))) = 3
   \<and> m_trailingWhitespaceType
        (snd (visuallyCollapseTrailingWhitespace 3 (last (m_runs exHelloLine)))) = Collapsible
   \<and> fst (visuallyCollapseTrailingWhitespace 9 (last (m_runs exHelloLine))) = 4
   \<and> m_trailingWhitespaceType
        (snd (visuallyCollapseTrailingWhitespace 9 (last (m_runs exHelloLine))))
       = NoTrailingWhitespace
   \<and> m_logicalWidth (last (m_runs exHelloLine)) = 54
   \<and> m_logicalWidth (snd (visuallyCollapseTrailingWhitespace 3 (last (m_runs exHelloLine))))
       = 51
   \<and> m_logicalWidth (snd (visuallyCollapseTrailingWhitespace 9 (last (m_runs exHelloLine))))
       = 50
   \<and> m_trailingWhitespaceWidth
        (snd (visuallyCollapseTrailingWhitespace 9 (last (m_runs exHelloLine)))) = 0"
proof -
  have ok: "line_ok exHelloLine"
    by (simp add: line_ok_def run_ok_def exHelloLine_eq)
  have r: "removeCollapsibleContent exEnv 5 exHelloLine = Inr exHelloTrimmed"
    by (simp add: exHelloTrimmed_eq exHelloLine_eq append_defs run_defs ex_defs trim_defs
        Let_def)
  have a: "append_line exEnv (exWord 1 exStyle 6 3) 30 exHelloLine
      = Inr (resultOr (exLine [] 0) (append_line exEnv (exWord 1 exStyle 6 3) 30 exHelloLine))"
    by (simp add: exHelloLine_eq append_defs run_defs ex_defs Let_def)
  have h: "addTrailingHyphen 4 exHelloLine
      = Inr (resultOr (exLine [] 0) (addTrailingHyphen 4 exHelloLine))"
    by (simp add: exHelloLine_eq addTrailingHyphen_def run_defs ex_defs Let_def)
  note inv = trailing_whitespace_invariant
    [OF ok, where env = exEnv and inlineItem = "exWord 1 exStyle 6 3" and logicalWidth = 30
       and E = 5 and hyphenLogicalWidth = 4 and x = 0 and r = "last (m_runs exHelloLine)"
       and t = 3 and operations = "[]" and ?l0.0 = exHelloLine]
  note inv9 = trailing_whitespace_invariant
    [OF ok, where env = exEnv and inlineItem = "exWord 1 exStyle 6 3" and logicalWidth = 30
       and E = 5 and hyphenLogicalWidth = 4 and x = 0 and r = "last (m_runs exHelloLine)"
       and t = 9 and operations = "[]" and ?l0.0 = exHelloLine]
  have f: "fst (visuallyCollapseTrailingWhitespace 3 (last (m_runs exHelloLine))) = 3"
    "fst (visuallyCollapseTrailingWhitespace 9 (last (m_runs exHelloLine))) = 4"
    "m_logicalWidth (last (m_runs exHelloLine)) = 54"
    by (simp_all add: exHelloLine_eq run_defs ex_defs Let_def)
  from inv have "m_logicalWidth
      (snd (visuallyCollapseTrailingWhitespace 3 (last (m_runs exHelloLine))))
    = m_logicalWidth (last (m_runs exHelloLine))
      - fst (visuallyCollapseTrailingWhitespace 3 (last (m_runs exHelloLine)))"
    by blast
  then have w3: "m_logicalWidth
      (snd (visuallyCollapseTrailingWhitespace 3 (last (m_runs exHelloLine)))) = 51"
    by (simp add: f)
  from inv9 have "m_logicalWidth
      (snd (visuallyCollapseTrailingWhitespace 9 (last (m_runs exHelloLine))))
    = m_logicalWidth (last (m_runs exHelloLine))
      - fst (visuallyCollapseTrailingWhitespace 9 (last (m_runs exHelloLine)))"
    by blast
  then have w9: "m_logicalWidth
      (snd (visuallyCollapseTrailingWhitespace 9 (last (m_runs exHelloLine)))) = 50"
    by (simp add: f)
  from inv r have "line_ok exHelloTrimmed" by blast
  then have "onResult line_ok (removeCollapsibleContent exEnv 5 exHelloLine) = Some True"
    by (simp add: r onResult_def)
  moreover from inv a
  have "line_ok (resultOr (exLine [] 0) (append_line exEnv (exWord 1 exStyle 6 3) 30 exHelloLine))"
    by blast
  then have "onResult line_ok (append_line exEnv (exWord 1 exStyle 6 3) 30 exHelloLine)
      = Some True"
    by (subst a) (simp add: onResult_def)
  moreover from inv h
  have "line_ok (resultOr (exLine [] 0) (addTrailingHyphen 4 exHelloLine))"
    by blast
  then have "onResult line_ok (addTrailingHyphen 4 exHelloLine) = Some True"
    by (subst h) (simp add: onResult_def)
  moreover have "fst (visuallyCollapseTrailingWhitespace 3 (last (m_runs exHelloLine))) = 3"
    "m_trailingWhitespaceType
        (snd (visuallyCollapseTrailingWhitespace 3 (last (m_runs exHelloLine)))) = Collapsible"
    "fst (visuallyCollapseTrailingWhitespace 9 (last (m_runs exHelloLine))) = 4"
    "m_trailingWhitespaceType
        (snd (visuallyCollapseTrailingWhitespace 9 (last (m_runs exHelloLine))))
       = NoTrailingWhitespace"
    "m_trailingWhitespaceWidth
        (snd (visuallyCollapseTrailingWhitespace 9 (last (m_runs exHelloLine)))) = 0"
    by (simp_all add: exHelloLine_eq run_defs ex_defs Let_def)
  ultimately show ?thesis using ok f(3) w3 w9 by simp
qed

end
